theory Spec2Isabelle
  imports Main "HOL-Library.Word"
begin

section \<open>Storage commands of the authelia CLI (internal/commands/storage_run.go)\<close>

text \<open>
  The Go file holds the \<open>RunE\<close> functions of the \<open>authelia storage\<close> commands. Each of them
  talks to collaborators that are declared elsewhere: the storage provider, the command's
  flag set, the terminal, and the UUID library. The collaborators are gathered in the record
  \<open>env\<close> below and every theorem holds for all of them. What a command does to the outside is
  kept in a \<open>world\<close>: the collaborators' own state, the sequence of calls made to them, and the
  text printed on standard output.

  Go's \<open>int\<close> is modelled by \<open>int\<close> for values that are only compared (schema versions, migration
  targets) and by \<open>nat\<close> for counters that start at 0 and are only incremented (page index,
  added, duplicates): they would need \<open>2^63\<close> loop iterations to wrap. A Go \<open>string\<close> is a byte
  sequence and \<open>len\<close> counts bytes; so does \<open>length\<close> on \<open>string\<close>.
\<close>

subsection \<open>Errors\<close>

text \<open>
  The package variables that hold an error, which \<open>errors.Is\<close> can be asked for: the commands
  know one, \<open>sql.ErrNoRows\<close>.
\<close>

datatype sentinel = sql_ErrNoRows

text \<open>
  \<open>New m\<close> is \<open>errors.New(m)\<close> or a \<open>fmt.Errorf\<close> without \<open>%w\<close>; \<open>Wrap m e\<close> is a
  \<open>fmt.Errorf\<close> whose format holds \<open>%w\<close>: \<open>m\<close> is the formatted message and \<open>e\<close> the wrapped error.
  \<open>Panic m\<close> is a run-time panic (an index out of range), which leaves the function at once.
  \<open>Sentinel v\<close> is the value of the package variable \<open>v\<close>: an error made by \<open>errors.New\<close> or
  \<open>fmt.Errorf\<close> is another value, also when its message is the same.
\<close>

datatype error = New string | Wrap string error | Panic string | Sentinel sentinel

fun sentinel_message :: "sentinel \<Rightarrow> string" where
  "sentinel_message sql_ErrNoRows = ''sql: no rows in result set''"

fun Error :: "error \<Rightarrow> string" where
  "Error (New m) = m"
| "Error (Wrap m e) = m"
| "Error (Panic m) = m"
| "Error (Sentinel v) = sentinel_message v"

text \<open>
  \<open>errors.Is(err, target)\<close> for a target that is a package variable: it walks the chain of
  wrapped errors from \<open>err\<close> and compares each error with the target by identity, not by
  message, so it holds when the chain ends in the value of that variable.
\<close>

fun errors_Is :: "error \<Rightarrow> sentinel \<Rightarrow> bool" where
  "errors_Is (Sentinel v) target = (v = target)"
| "errors_Is (Wrap m e) target = errors_Is e target"
| "errors_Is (New m) target = False"
| "errors_Is (Panic m) target = False"

definition Errorf_w :: "string \<Rightarrow> error \<Rightarrow> error" where
  "Errorf_w prefix err = Wrap (prefix @ Error err) err"

subsection \<open>Formatting\<close>

definition digit :: "nat \<Rightarrow> char" where
  "digit d = (if d = 0 then CHR ''0'' else if d = 1 then CHR ''1'' else if d = 2 then CHR ''2''
     else if d = 3 then CHR ''3'' else if d = 4 then CHR ''4'' else if d = 5 then CHR ''5''
     else if d = 6 then CHR ''6'' else if d = 7 then CHR ''7'' else if d = 8 then CHR ''8''
     else CHR ''9'')"

text \<open>The verb \<open>%d\<close> of \<open>fmt\<close>.\<close>

fun fmt_nat :: "nat \<Rightarrow> string" where
  "fmt_nat n = (if n < 10 then [digit n] else fmt_nat (n div 10) @ [digit (n mod 10)])"

definition fmt_int :: "int \<Rightarrow> string" where
  "fmt_int i = (if i < 0 then CHR ''-'' # fmt_nat (nat (- i)) else fmt_nat (nat i))"

definition nl :: string where
  "nl = [CHR 0x0A]"

definition tab :: string where
  "tab = [CHR 0x09]"

definition quote :: string where
  "quote = [CHR 0x27]"

text \<open>\<open>strings.Join\<close>.\<close>

fun strings_Join :: "string list \<Rightarrow> string \<Rightarrow> string" where
  "strings_Join [] sep = []"
| "strings_Join [x] sep = x"
| "strings_Join (x # y # xs) sep = x @ sep @ strings_Join (y # xs) sep"

subsection \<open>Data model\<close>

type_synonym UUID = "128 word"

text \<open>\<open>model.UserOpaqueIdentifier\<close>, with the fields the spec's data model lists.\<close>

record UserOpaqueIdentifier =
  Service :: string
  SectorID :: string
  Username :: string
  Identifier :: UUID

text \<open>\<open>model.WebauthnDevice\<close>: the fields the listing prints (\<open>KID\<close> as its \<open>%s\<close> rendering).\<close>

record WebauthnDevice =
  device_ID :: int
  device_KID :: string
  device_Description :: string
  device_Username :: string

text \<open>\<open>model.TOTPConfiguration\<close>: the fields the export prints.\<close>

record TOTPConfiguration =
  totp_Issuer :: string
  totp_Username :: string
  totp_Algorithm :: string
  totp_Digits :: nat
  totp_Period :: nat
  totp_Secret :: string

text \<open>The flag names of the commands (the string constants \<open>cmdFlagName...\<close>).\<close>

datatype flagname =
    cmdFlagNameTarget | cmdFlagNameDestroyData | cmdFlagNameNewEncryptionKey
  | cmdFlagNameService | cmdFlagNameSector | cmdFlagNameIdentifier | cmdFlagNameFile

text \<open>A \<open>pflag.FlagSet\<close>, as far as the commands read it.\<close>

record FlagSet =
  GetInt :: "flagname \<Rightarrow> error + int"
  GetString :: "flagname \<Rightarrow> error + string"
  Changed :: "flagname \<Rightarrow> bool"

text \<open>The export formats of \<open>storage user totp export\<close>; any other string is \<open>FormatOther\<close>.\<close>

datatype totp_format =
  storageTOTPExportFormatCSV | storageTOTPExportFormatURI | storageTOTPExportFormatPNG | FormatOther

subsection \<open>Collaborators and the world\<close>

text \<open>
  The transcript of a run: every call made to a collaborator, with its arguments and with
  what it returned.
\<close>

datatype call =
    CallClose "error option"
  | CallCheckSchemaVersion "error option"
  | CallSchemaVersion "error + int"
  | CallSchemaMigrate bool int "error option"
  | CallSchemaEncryptionChangeKey string "error option"
  | CallLoadWebauthnDevices nat nat "error + WebauthnDevice list"
  | CallLoadTOTPConfigurations nat nat "error + TOTPConfiguration list"
  | CallLoadUserOpaqueIdentifiers "UserOpaqueIdentifier list \<times> error option"
  | CallSaveUserOpaqueIdentifier UserOpaqueIdentifier "error option"
  | CallNewRandom "error + UUID"
  | CallTermReadLine string "error + string"
  | CallTermReadPassword string "error + string"
  | CallStat string "error + bool"
  | CallReadFile string "error + string"

text \<open>What the PNG export does to the file system, in order.\<close>

datatype file_op =
    FileCreate string
  | FileEncode string TOTPConfiguration
  | FileClose string

record 's world =
  backend :: 's
  calls :: "call list"
  stdout :: string
  files :: "file_op list"

text \<open>
  The collaborators. A Go function returning \<open>(v, err)\<close> is a function to \<open>error + 'v\<close>, one
  returning only \<open>err\<close> is a function to \<open>error option\<close>; each takes and returns the collaborators'
  state. \<open>LoadUserOpaqueIdentifiers\<close> returns the pair as it is, since the generate command goes
  on with the value when the error is \<open>sql.ErrNoRows\<close>. \<open>os_Stat\<close> returns \<open>IsDir()\<close> of the file.
  \<open>totp_Image\<close> and \<open>png_Encode\<close> say whether rendering a configuration's QR image and
  encoding it into a file fail. The package constants \<open>SchemaLatest\<close>, \<open>validIdentifierServices\<close>
  and \<open>identifierServiceOpenIDConnect\<close> are fields too.
\<close>

record 's env =
  Close :: "'s \<Rightarrow> error option \<times> 's"
  CheckSchemaVersion :: "'s \<Rightarrow> error option \<times> 's"
  storageWrapCheckSchemaErr :: "error \<Rightarrow> error"
  SchemaVersion :: "'s \<Rightarrow> (error + int) \<times> 's"
  SchemaLatest :: int
  SchemaMigrate :: "bool \<Rightarrow> int \<Rightarrow> 's \<Rightarrow> error option \<times> 's"
  SchemaEncryptionChangeKey :: "string \<Rightarrow> 's \<Rightarrow> error option \<times> 's"
  LoadWebauthnDevices :: "nat \<Rightarrow> nat \<Rightarrow> 's \<Rightarrow> (error + WebauthnDevice list) \<times> 's"
  LoadTOTPConfigurations :: "nat \<Rightarrow> nat \<Rightarrow> 's \<Rightarrow> (error + TOTPConfiguration list) \<times> 's"
  LoadUserOpaqueIdentifiers :: "'s \<Rightarrow> (UserOpaqueIdentifier list \<times> error option) \<times> 's"
  SaveUserOpaqueIdentifier :: "UserOpaqueIdentifier \<Rightarrow> 's \<Rightarrow> error option \<times> 's"
  termReadLine :: "string \<Rightarrow> 's \<Rightarrow> (error + string) \<times> 's"
  termReadPasswordWithPrompt :: "string \<Rightarrow> flagname \<Rightarrow> 's \<Rightarrow> (error + string) \<times> 's"
  os_Stat :: "string \<Rightarrow> 's \<Rightarrow> (error + bool) \<times> 's"
  os_ReadFile :: "string \<Rightarrow> 's \<Rightarrow> (error + string) \<times> 's"
  yaml_Unmarshal :: "string \<Rightarrow> error + UserOpaqueIdentifier list"
  filepath_Join :: "string \<Rightarrow> string \<Rightarrow> string"
  totp_URI :: "TOTPConfiguration \<Rightarrow> string"
  totp_Image :: "TOTPConfiguration \<Rightarrow> error option"
  png_Encode :: "string \<Rightarrow> TOTPConfiguration \<Rightarrow> error option"
  flagsGetTOTPExportOptions :: "FlagSet \<Rightarrow> error + totp_format \<times> string"
  flagsGetUserIdentifiersGenerateOptions :: "FlagSet \<Rightarrow> error + string list \<times> string list \<times> string list"
  validIdentifierServices :: "string list"
  identifierServiceOpenIDConnect :: string
  uuid_Parse :: "string \<Rightarrow> error + UUID"
  uuid_Version :: "UUID \<Rightarrow> nat"
  uuid_String :: "UUID \<Rightarrow> string"
  uuid_NewRandom :: "'s \<Rightarrow> (error + UUID) \<times> 's"

text \<open>A call to a collaborator: run it on the collaborators' state and add it to the transcript.\<close>

definition invoke :: "('r \<Rightarrow> call) \<Rightarrow> ('s \<Rightarrow> 'r \<times> 's) \<Rightarrow> 's world \<Rightarrow> 'r \<times> 's world" where
  "invoke c f w = (case f (backend w) of (r, s') \<Rightarrow> (r, w\<lparr>backend := s', calls := calls w @ [c r]\<rparr>))"

definition Printf :: "string \<Rightarrow> 's world \<Rightarrow> 's world" where
  "Printf s w = w\<lparr>stdout := stdout w @ s\<rparr>"

text \<open>The calls a run has added to the transcript.\<close>

definition new_calls :: "'s world \<Rightarrow> 's world \<Rightarrow> call list" where
  "new_calls w w' = drop (length (calls w)) (calls w')"

text \<open>
  \<open>defer func() { _ = ctx.providers.StorageProvider.Close() }()\<close>: the provider is closed on
  every return that follows the \<open>defer\<close>, and the error of \<open>Close\<close> is dropped.
\<close>

definition closeAfter :: "'s env \<Rightarrow> 'r \<times> 's world \<Rightarrow> 'r \<times> 's world" where
  "closeAfter ctx rw = (fst rw, snd (invoke CallClose (Close ctx) (snd rw)))"

definition deferClose ::
  "'s env \<Rightarrow> ('s world \<Rightarrow> error option \<times> 's world) \<Rightarrow> 's world \<Rightarrow> error option \<times> 's world" where
  "deferClose ctx body w = closeAfter ctx (body w)"

text \<open>\<open>if err = ctx.CheckSchemaVersion(); err != nil { return storageWrapCheckSchemaErr(err) }\<close>\<close>

definition checkSchema :: "'s env \<Rightarrow> 's world \<Rightarrow> error option \<times> 's world" where
  "checkSchema ctx w =
     (case invoke CallCheckSchemaVersion (CheckSchemaVersion ctx) w of
        (Some err, w1) \<Rightarrow> (Some (storageWrapCheckSchemaErr ctx err), w1)
      | (None, w1) \<Rightarrow> (None, w1))"

subsection \<open>storage migrate up / down\<close>

text \<open>
  Modelled from the spec: \<open>termReadConfirmation\<close> is called by the migrate command but defined
  outside storage_run.go. The spec: "execution requires an explicit, separately captured
  operator confirmation where the operator must type an exact literal string; skipping or
  mistyping this aborts the whole operation". So: one line is read from the terminal after the
  prompt; a failed read is an error, and the operator has confirmed exactly when the line is the
  confirmation string. The spec gives the flag set and the flag name no part in it.
\<close>

definition termReadConfirmation ::
  "'s env \<Rightarrow> FlagSet \<Rightarrow> flagname \<Rightarrow> string \<Rightarrow> string \<Rightarrow> 's world \<Rightarrow> (error + bool) \<times> 's world" where
  "termReadConfirmation ctx flags name prompt confirmation w =
     (case invoke (CallTermReadLine prompt) (termReadLine ctx prompt) w of
        (Inl err, w1) \<Rightarrow> (Inl err, w1)
      | (Inr input, w1) \<Rightarrow> (Inr (input = confirmation), w1))"

definition errTargetRequired :: error where
  "errTargetRequired = New ''you must set a target version''"

definition errDownCancelled :: error where
  "errDownCancelled = New ''cancelling down migration due to user not accepting data destruction''"

definition confirmationDESTROY :: string where
  "confirmationDESTROY = ''DESTROY''"

definition destroyPrompt :: string where
  "destroyPrompt = ''Schema Down Migrations may DESTROY data, type 'DESTROY' and press return to continue: ''"

definition NewStorageMigrationRunE ::
  "'s env \<Rightarrow> bool \<Rightarrow> FlagSet \<Rightarrow> 's world \<Rightarrow> error option \<times> 's world" where
  "NewStorageMigrationRunE ctx up flags = deferClose ctx (\<lambda>w.
     case GetInt flags cmdFlagNameTarget of
       Inl err \<Rightarrow> (Some err, w)
     | Inr target \<Rightarrow>
         if up then
           (if Changed flags cmdFlagNameTarget
            then invoke (CallSchemaMigrate True target) (SchemaMigrate ctx True target) w
            else invoke (CallSchemaMigrate True (SchemaLatest ctx)) (SchemaMigrate ctx True (SchemaLatest ctx)) w)
         else if \<not> Changed flags cmdFlagNameTarget then
           (Some errTargetRequired, w)
         else
           (case termReadConfirmation ctx flags cmdFlagNameDestroyData destroyPrompt confirmationDESTROY w of
              (Inl err, w1) \<Rightarrow> (Some err, w1)
            | (Inr confirmed, w1) \<Rightarrow>
                if \<not> confirmed then
                  (Some errDownCancelled, w1)
                else invoke (CallSchemaMigrate False target) (SchemaMigrate ctx False target) w1))"

subsection \<open>storage encryption change-key\<close>

definition newKeyPrompt :: string where
  "newKeyPrompt = ''Enter New Storage Encryption Key: ''"

definition errSchemaVersionTooLow :: error where
  "errSchemaVersionTooLow = New ''schema version must be at least version 1 to change the encryption key''"

definition errKeyBlank :: error where
  "errKeyBlank = New ''the new encryption key must not be blank''"

definition errKeyShort :: error where
  "errKeyShort = New ''the new encryption key must be at least 20 characters''"

definition msgKeyChanged :: string where
  "msgKeyChanged = ''Completed the encryption key change. Please adjust your configuration to use the new key.'' @ nl"

definition StorageSchemaEncryptionChangeKeyRunE ::
  "'s env \<Rightarrow> FlagSet \<Rightarrow> 's world \<Rightarrow> error option \<times> 's world" where
  "StorageSchemaEncryptionChangeKeyRunE ctx flags = deferClose ctx (\<lambda>w.
     case checkSchema ctx w of
       (Some err, w1) \<Rightarrow> (Some err, w1)
     | (None, w1) \<Rightarrow>
     (case invoke CallSchemaVersion (SchemaVersion ctx) w1 of
       (Inl err, w2) \<Rightarrow> (Some err, w2)
     | (Inr version, w2) \<Rightarrow>
         if version \<le> 0 then
           (Some errSchemaVersionTooLow, w2)
         else
           let useFlag = Changed flags cmdFlagNameNewEncryptionKey in
           (case (if useFlag then GetString flags cmdFlagNameNewEncryptionKey else Inr []) of
              Inl err \<Rightarrow> (Some err, w2)
            | Inr key \<Rightarrow>
           (case (if \<not> useFlag \<or> key = []
                  then invoke (CallTermReadPassword newKeyPrompt)
                         (termReadPasswordWithPrompt ctx newKeyPrompt cmdFlagNameNewEncryptionKey) w2
                  else (Inr key, w2)) of
              (Inl err, w3) \<Rightarrow> (Some err, w3)
            | (Inr key, w3) \<Rightarrow>
                if key = [] then (Some errKeyBlank, w3)
                else if length key < 20 then
                  (Some errKeyShort, w3)
                else
                  (case invoke (CallSchemaEncryptionChangeKey key) (SchemaEncryptionChangeKey ctx key) w3 of
                     (Some err, w4) \<Rightarrow> (Some err, w4)
                   | (None, w4) \<Rightarrow>
                       (None, Printf msgKeyChanged w4))))))"

subsection \<open>Paginated listings: storage user webauthn list, storage user totp export\<close>

definition webauthnLine :: "WebauthnDevice \<Rightarrow> string" where
  "webauthnLine device =
     fmt_int (device_ID device) @ tab @ device_KID device @ tab @ device_Description device @ tab
       @ device_Username device @ nl"

text \<open>
  \<open>for page := 0; true; page++\<close>. The loop ends when the provider fails or returns a page with
  fewer than \<open>limit\<close> devices; with a provider that never does, it does not return (\<open>None\<close>).
\<close>

definition errListDevices :: "error \<Rightarrow> error" where
  "errListDevices err = Errorf_w ''failed to list devices: '' err"

definition errNoWebauthnDevices :: error where
  "errNoWebauthnDevices = New ''no webauthn devices in database''"

partial_function (option) webauthnListLoop ::
  "'s env \<Rightarrow> nat \<Rightarrow> nat \<Rightarrow> string \<Rightarrow> 's world \<Rightarrow> ((error option \<times> string) \<times> 's world) option" where
  "webauthnListLoop ctx limit page output w =
     (case invoke (CallLoadWebauthnDevices limit page) (LoadWebauthnDevices ctx limit page) w of
        (Inl err, w1) \<Rightarrow> Some ((Some (errListDevices err), output), w1)
      | (Inr devices, w1) \<Rightarrow>
          if page = 0 \<and> length devices = 0 then
            Some ((Some errNoWebauthnDevices, output), w1)
          else if length devices < limit then
            Some ((None, output @ concat (map webauthnLine devices)), w1)
          else webauthnListLoop ctx limit (page + 1) (output @ concat (map webauthnLine devices)) w1)"

definition webauthnHeader :: string where
  "webauthnHeader = ''Webauthn Devices:'' @ nl @ nl @ ''ID'' @ tab @ ''KID'' @ tab @ ''Description'' @ tab @ ''Username'' @ nl"

definition StorageWebauthnListAllRunE :: "'s env \<Rightarrow> 's world \<Rightarrow> (error option \<times> 's world) option" where
  "StorageWebauthnListAllRunE ctx w =
     map_option (closeAfter ctx)
       (case checkSchema ctx w of
          (Some err, w1) \<Rightarrow> Some (Some err, w1)
        | (None, w1) \<Rightarrow>
            (case webauthnListLoop ctx 10 0 [] w1 of
               None \<Rightarrow> None
             | Some ((Some err, output), w2) \<Rightarrow> Some (Some err, w2)
             | Some ((None, output), w2) \<Rightarrow> Some (None, Printf (output @ nl) (Printf webauthnHeader w2))))"

definition totpCSVLine :: "TOTPConfiguration \<Rightarrow> string" where
  "totpCSVLine c =
     totp_Issuer c @ '','' @ totp_Username c @ '','' @ totp_Algorithm c @ '','' @ fmt_nat (totp_Digits c)
       @ '','' @ fmt_nat (totp_Period c) @ '','' @ totp_Secret c @ nl"

definition pngName :: "TOTPConfiguration \<Rightarrow> string" where
  "pngName c = totp_Username c @ ''.png''"

text \<open>The body of \<open>for _, c := range configurations\<close>: one configuration in the chosen format.\<close>

definition exportTOTPConfiguration ::
  "'s env \<Rightarrow> totp_format \<Rightarrow> string \<Rightarrow> TOTPConfiguration \<Rightarrow> 's world \<Rightarrow> error option \<times> 's world" where
  "exportTOTPConfiguration ctx format dir c w =
     (case format of
        storageTOTPExportFormatCSV \<Rightarrow> (None, Printf (totpCSVLine c) w)
      | storageTOTPExportFormatURI \<Rightarrow> (None, Printf (totp_URI ctx c @ nl) w)
      | storageTOTPExportFormatPNG \<Rightarrow>
          (let file = filepath_Join ctx dir (pngName c);
               w1 = w\<lparr>files := files w @ [FileCreate file]\<rparr>
           in case totp_Image ctx c of
                Some err \<Rightarrow> (Some err, w1\<lparr>files := files w1 @ [FileClose file]\<rparr>)
              | None \<Rightarrow>
                  (case png_Encode ctx file c of
                     Some err \<Rightarrow> (Some err, w1\<lparr>files := files w1 @ [FileClose file]\<rparr>)
                   | None \<Rightarrow> (None, w1\<lparr>files := files w1 @ [FileEncode file c, FileClose file]\<rparr>)))
      | FormatOther \<Rightarrow> (None, w))"

fun exportTOTPConfigurations ::
  "'s env \<Rightarrow> totp_format \<Rightarrow> string \<Rightarrow> TOTPConfiguration list \<Rightarrow> 's world \<Rightarrow> error option \<times> 's world" where
  "exportTOTPConfigurations ctx format dir [] w = (None, w)"
| "exportTOTPConfigurations ctx format dir (c # configurations) w =
     (case exportTOTPConfiguration ctx format dir c w of
        (Some err, w1) \<Rightarrow> (Some err, w1)
      | (None, w1) \<Rightarrow> exportTOTPConfigurations ctx format dir configurations w1)"

definition totpCSVHeader :: string where
  "totpCSVHeader = ''issuer,username,algorithm,digits,period,secret'' @ nl"

partial_function (option) totpExportLoop ::
  "'s env \<Rightarrow> totp_format \<Rightarrow> string \<Rightarrow> nat \<Rightarrow> nat \<Rightarrow> 's world \<Rightarrow> (error option \<times> 's world) option" where
  "totpExportLoop ctx format dir limit page w =
     (case invoke (CallLoadTOTPConfigurations limit page) (LoadTOTPConfigurations ctx limit page) w of
        (Inl err, w1) \<Rightarrow> Some (Some err, w1)
      | (Inr configurations, w1) \<Rightarrow>
          (case exportTOTPConfigurations ctx format dir configurations
                  (if page = 0 \<and> format = storageTOTPExportFormatCSV then Printf totpCSVHeader w1 else w1) of
             (Some err, w2) \<Rightarrow> Some (Some err, w2)
           | (None, w2) \<Rightarrow>
               if length configurations < limit then Some (None, w2)
               else totpExportLoop ctx format dir limit (page + 1) w2))"

definition msgExportedPNG :: "string \<Rightarrow> string" where
  "msgExportedPNG dir = ''Exported TOTP QR codes in PNG format in the '' @ quote @ dir @ quote @ '' directory'' @ nl"

definition StorageTOTPExportRunE :: "'s env \<Rightarrow> FlagSet \<Rightarrow> 's world \<Rightarrow> (error option \<times> 's world) option" where
  "StorageTOTPExportRunE ctx flags w =
     map_option (closeAfter ctx)
       (case checkSchema ctx w of
          (Some err, w1) \<Rightarrow> Some (Some err, w1)
        | (None, w1) \<Rightarrow>
            (case flagsGetTOTPExportOptions ctx flags of
               Inl err \<Rightarrow> Some (Some err, w1)
             | Inr (format, dir) \<Rightarrow>
                 (case totpExportLoop ctx format dir 10 0 w1 of
                    None \<Rightarrow> None
                  | Some (Some err, w2) \<Rightarrow> Some (Some err, w2)
                  | Some (None, w2) \<Rightarrow>
                      Some (None,
                        if format = storageTOTPExportFormatPNG
                        then Printf (msgExportedPNG dir) w2
                        else w2))))"

text \<open>
  Modelled from the spec: the provider's paginated loads (\<open>LoadWebauthnDevices\<close>,
  \<open>LoadTOTPConfigurations\<close>) are outside storage_run.go. The spec: "given a page size L and a
  zero-based page index, repeatedly fetch up to L records". Page \<open>page\<close> of a collection is its
  records from position \<open>limit * page\<close> on, at most \<open>limit\<close> of them.
\<close>

definition page_of :: "'a list \<Rightarrow> nat \<Rightarrow> nat \<Rightarrow> 'a list" where
  "page_of xs limit page = take limit (drop (limit * page) xs)"

subsection \<open>storage user identifiers import\<close>







subsection \<open>storage user identifiers generate\<close>

text \<open>
  Modelled from the spec: \<open>utils.IsStringInSlice\<close> and \<open>utils.IsStringSliceContainsAll\<close> are
  outside storage_run.go. The spec: "Every requested service name must belong to a fixed known
  set of valid service identifiers". The first says whether a string is an element of a slice,
  the second whether every string of the first slice is an element of the second.
\<close>

definition IsStringInSlice :: "string \<Rightarrow> string list \<Rightarrow> bool" where
  "IsStringInSlice needle haystack = (needle \<in> set haystack)"

definition IsStringSliceContainsAll :: "string list \<Rightarrow> string list \<Rightarrow> bool" where
  "IsStringSliceContainsAll needles haystack = list_all (\<lambda>n. IsStringInSlice n haystack) needles"

text \<open>
  Modelled from the spec: \<open>containsIdentifier\<close> is outside storage_run.go. The spec: "it checks
  membership against the in-memory existing set by natural key (service, sector, username),
  not by identifier value".
\<close>

fun containsIdentifier :: "UserOpaqueIdentifier \<Rightarrow> UserOpaqueIdentifier list \<Rightarrow> bool" where
  "containsIdentifier identifier [] = False"
| "containsIdentifier identifier (x # identifiers) =
     ((Service identifier = Service x \<and> SectorID identifier = SectorID x \<and> Username identifier = Username x)
      \<or> containsIdentifier identifier identifiers)"

text \<open>
  \<open>model.UserOpaqueIdentifier{Service: service, SectorID: sector, Username: username}\<close>: the
  identifier field has its zero value.
\<close>

definition newUserOpaqueIdentifier :: "string \<Rightarrow> string \<Rightarrow> string \<Rightarrow> UserOpaqueIdentifier" where
  "newUserOpaqueIdentifier service sector username =
     \<lparr>Service = service, SectorID = sector, Username = username, Identifier = 0\<rparr>"

definition errGenerateUUID :: "error \<Rightarrow> error" where
  "errGenerateUUID err = Errorf_w ''failed to generate a uuid: '' err"

definition errSaveIdentifier :: "error \<Rightarrow> error" where
  "errSaveIdentifier err = Errorf_w ''failed to save identifier: '' err"

definition errLoadIdentifiers :: "error \<Rightarrow> error" where
  "errLoadIdentifiers err = Errorf_w ''can't load the existing identifiers: '' err"

definition errNoUsers :: error where
  "errNoUsers = New ''must supply at least one user''"

text \<open>The innermost loop, \<open>for _, username := range users\<close>, on the counters and the world.\<close>

fun generateUsers ::
  "'s env \<Rightarrow> UserOpaqueIdentifier list \<Rightarrow> string \<Rightarrow> string \<Rightarrow> string list \<Rightarrow> nat \<times> nat \<times> 's world
    \<Rightarrow> error option \<times> nat \<times> nat \<times> 's world" where
  "generateUsers ctx identifiers service sector [] st = (None, st)"
| "generateUsers ctx identifiers service sector (username # users) (added, duplicates, w) =
     (let identifier = newUserOpaqueIdentifier service sector username in
      if containsIdentifier identifier identifiers then
        generateUsers ctx identifiers service sector users (added, duplicates + 1, w)
      else
        (case invoke CallNewRandom (uuid_NewRandom ctx) w of
           (Inl err, w1) \<Rightarrow> (Some (errGenerateUUID err), added, duplicates, w1)
         | (Inr u, w1) \<Rightarrow>
             (case invoke (CallSaveUserOpaqueIdentifier (identifier\<lparr>Identifier := u\<rparr>))
                     (SaveUserOpaqueIdentifier ctx (identifier\<lparr>Identifier := u\<rparr>)) w1 of
                (Some err, w2) \<Rightarrow> (Some (errSaveIdentifier err), added, duplicates, w2)
              | (None, w2) \<Rightarrow> generateUsers ctx identifiers service sector users (added + 1, duplicates, w2))))"

text \<open>\<open>for _, sector := range sectors\<close>.\<close>

fun generateSectors ::
  "'s env \<Rightarrow> UserOpaqueIdentifier list \<Rightarrow> string \<Rightarrow> string list \<Rightarrow> string list \<Rightarrow> nat \<times> nat \<times> 's world
    \<Rightarrow> error option \<times> nat \<times> nat \<times> 's world" where
  "generateSectors ctx identifiers service [] users st = (None, st)"
| "generateSectors ctx identifiers service (sector # sectors) users st =
     (case generateUsers ctx identifiers service sector users st of
        (Some err, st1) \<Rightarrow> (Some err, st1)
      | (None, st1) \<Rightarrow> generateSectors ctx identifiers service sectors users st1)"

text \<open>\<open>for _, service := range services\<close>.\<close>

fun generateServices ::
  "'s env \<Rightarrow> UserOpaqueIdentifier list \<Rightarrow> string list \<Rightarrow> string list \<Rightarrow> string list \<Rightarrow> nat \<times> nat \<times> 's world
    \<Rightarrow> error option \<times> nat \<times> nat \<times> 's world" where
  "generateServices ctx identifiers [] sectors users st = (None, st)"
| "generateServices ctx identifiers (service # services) sectors users st =
     (case generateSectors ctx identifiers service sectors users st of
        (Some err, st1) \<Rightarrow> (Some err, st1)
      | (None, st1) \<Rightarrow> generateServices ctx identifiers services sectors users st1)"

definition invalidServicesError :: "string list \<Rightarrow> string list \<Rightarrow> error" where
  "invalidServicesError services valid =
     New (''one or more the service names '' @ quote @ strings_Join services (quote @ '', '' @ quote) @ quote
          @ '' is invalid, the valid values are: '' @ quote @ strings_Join valid (quote @ '', '' @ quote) @ quote)"

definition generateReport :: "nat \<Rightarrow> nat \<Rightarrow> string" where
  "generateReport added duplicates =
     ''Successfully added '' @ fmt_nat added @ '' opaque identifiers and '' @ fmt_nat duplicates
       @ '' duplicates were skipped'' @ nl"

text \<open>\<open>err != nil && !errors.Is(err, sql.ErrNoRows)\<close>: the error of the load that ends the command.\<close>

definition loadError :: "error option \<Rightarrow> error option" where
  "loadError err = (case err of None \<Rightarrow> None | Some e \<Rightarrow> if \<not> errors_Is e sql_ErrNoRows then Some e else None)"

definition StorageUserIdentifiersGenerateRunE ::
  "'s env \<Rightarrow> FlagSet \<Rightarrow> 's world \<Rightarrow> error option \<times> 's world" where
  "StorageUserIdentifiersGenerateRunE ctx flags = deferClose ctx (\<lambda>w.
     case checkSchema ctx w of
       (Some err, w1) \<Rightarrow> (Some err, w1)
     | (None, w1) \<Rightarrow>
     (case invoke CallLoadUserOpaqueIdentifiers (LoadUserOpaqueIdentifiers ctx) w1 of
       ((identifiers, err), w2) \<Rightarrow>
     (case loadError err of
        Some e \<Rightarrow> (Some (errLoadIdentifiers e), w2)
      | None \<Rightarrow>
     (case flagsGetUserIdentifiersGenerateOptions ctx flags of
        Inl err \<Rightarrow> (Some err, w2)
      | Inr (users, services, sectors) \<Rightarrow>
          if length users = 0 then (Some errNoUsers, w2)
          else if \<not> IsStringSliceContainsAll services (validIdentifierServices ctx)
          then (Some (invalidServicesError services (validIdentifierServices ctx)), w2)
          else
            (case generateServices ctx identifiers services
                    (if length sectors = 0 then sectors @ [[]] else sectors) users (0, 0, w2) of
               (Some err, added, duplicates, w3) \<Rightarrow> (Some err, w3)
             | (None, added, duplicates, w3) \<Rightarrow> (None, Printf (generateReport added duplicates) w3))))))"

subsection \<open>storage user identifiers add\<close>

definition invalidServiceError :: "string \<Rightarrow> string list \<Rightarrow> error" where
  "invalidServiceError service valid =
     New (''the service name '' @ quote @ service @ quote @ '' is invalid, the valid values are: ''
          @ quote @ strings_Join valid (quote @ '', '' @ quote) @ quote)"

definition identifierVersionError :: "string \<Rightarrow> nat \<Rightarrow> error" where
  "identifierVersionError identifierStr version =
     New (''the identifier providerd '' @ quote @ identifierStr @ quote @ '' is a version '' @ fmt_nat version
          @ '' UUID but only version 4 UUID'' @ quote @ ''s accepted as identifiers'')"

definition identifierParseError :: "string \<Rightarrow> error \<Rightarrow> error" where
  "identifierParseError identifierStr err =
     Errorf_w (''the identifier provided '' @ quote @ identifierStr @ quote
               @ '' is invalid as it must be a version 4 UUID but parsing it had an error: '') err"

definition addReport :: "'s env \<Rightarrow> UserOpaqueIdentifier \<Rightarrow> string" where
  "addReport ctx opaqueID =
     ''Added User Opaque Identifier:'' @ nl @ tab @ ''Service: '' @ Service opaqueID @ nl @ tab @ ''Sector: ''
       @ SectorID opaqueID @ nl @ tab @ ''Username: '' @ Username opaqueID @ nl @ tab @ ''Identifier: ''
       @ uuid_String ctx (Identifier opaqueID) @ nl @ nl"

definition panicIndex :: error where
  "panicIndex = Panic ''index out of range [0] with length 0''"

text \<open>\<open>args[0]\<close> panics when no argument was given.\<close>

definition StorageUserIdentifiersAddRunE ::
  "'s env \<Rightarrow> FlagSet \<Rightarrow> string list \<Rightarrow> 's world \<Rightarrow> error option \<times> 's world" where
  "StorageUserIdentifiersAddRunE ctx flags args w =
     (case GetString flags cmdFlagNameService of
        Inl err \<Rightarrow> (Some err, w)
      | Inr service \<Rightarrow>
     (case (if service = [] then Inr (identifierServiceOpenIDConnect ctx)
            else if \<not> IsStringInSlice service (validIdentifierServices ctx)
            then Inl (invalidServiceError service (validIdentifierServices ctx))
            else Inr service) of
        Inl err \<Rightarrow> (Some err, w)
      | Inr service \<Rightarrow>
     (case GetString flags cmdFlagNameSector of
        Inl err \<Rightarrow> (Some err, w)
      | Inr sector \<Rightarrow>
     (case args of
        [] \<Rightarrow> (Some panicIndex, w)
      | username # _ \<Rightarrow>
     (case (if Changed flags cmdFlagNameIdentifier then
              (case GetString flags cmdFlagNameIdentifier of
                 Inl err \<Rightarrow> (Inl err, w)
               | Inr identifierStr \<Rightarrow>
                   (case uuid_Parse ctx identifierStr of
                      Inl err \<Rightarrow> (Inl (identifierParseError identifierStr err), w)
                    | Inr u \<Rightarrow>
                        if uuid_Version ctx u \<noteq> 4
                        then (Inl (identifierVersionError identifierStr (uuid_Version ctx u)), w)
                        else (Inr u, w)))
            else invoke CallNewRandom (uuid_NewRandom ctx) w) of
        (Inl err, w1) \<Rightarrow> (Some err, w1)
      | (Inr u, w1) \<Rightarrow>
          deferClose ctx (\<lambda>w1.
            case checkSchema ctx w1 of
              (Some err, w2) \<Rightarrow> (Some err, w2)
            | (None, w2) \<Rightarrow>
                (let opaqueID = \<lparr>Service = service, SectorID = sector, Username = username, Identifier = u\<rparr> in
                 case invoke (CallSaveUserOpaqueIdentifier opaqueID) (SaveUserOpaqueIdentifier ctx opaqueID) w2 of
                   (Some err, w3) \<Rightarrow> (Some err, w3)
                 | (None, w3) \<Rightarrow> (None, Printf (addReport ctx opaqueID) w3))) w1)))))"

subsection \<open>Collaborators in memory\<close>

text \<open>
  A concrete set of collaborators, on which the commands can be run: a store holding the
  schema version, the three collections, the lines the operator is going to type, the UUIDs
  the generator is going to return and the encryption key. Its paginated loads return
  \<open>page_of\<close> the collections, its saves append; flags, files and parsers are set where a
  command is run.
\<close>

record store =
  st_version :: int
  st_identifiers :: "UserOpaqueIdentifier list"
  st_devices :: "WebauthnDevice list"
  st_totp :: "TOTPConfiguration list"
  st_typed :: "string list"
  st_uuids :: "UUID list"
  st_key :: string

definition mem_read :: "store \<Rightarrow> (error + string) \<times> store" where
  "mem_read s = (case st_typed s of
                   [] \<Rightarrow> (Inl (New ''EOF''), s)
                 | l # ls \<Rightarrow> (Inr l, s\<lparr>st_typed := ls\<rparr>))"

definition mem_env :: "store env" where
  "mem_env = \<lparr>
     Close = (\<lambda>s. (None, s)),
     CheckSchemaVersion = (\<lambda>s. (if st_version s \<le> 0 then Some (New ''storage schema is not initialized'') else None, s)),
     storageWrapCheckSchemaErr = (\<lambda>err. Errorf_w ''storage schema outdated: '' err),
     SchemaVersion = (\<lambda>s. (Inr (st_version s), s)),
     SchemaLatest = 2147483640,
     SchemaMigrate = (\<lambda>up target s. (None, s\<lparr>st_version := target\<rparr>)),
     SchemaEncryptionChangeKey = (\<lambda>key s. (None, s\<lparr>st_key := key\<rparr>)),
     LoadWebauthnDevices = (\<lambda>limit page s. (Inr (page_of (st_devices s) limit page), s)),
     LoadTOTPConfigurations = (\<lambda>limit page s. (Inr (page_of (st_totp s) limit page), s)),
     LoadUserOpaqueIdentifiers = (\<lambda>s. ((st_identifiers s, None), s)),
     SaveUserOpaqueIdentifier = (\<lambda>x s. (None, s\<lparr>st_identifiers := st_identifiers s @ [x]\<rparr>)),
     termReadLine = (\<lambda>prompt. mem_read),
     termReadPasswordWithPrompt = (\<lambda>prompt flag. mem_read),
     os_Stat = (\<lambda>file s. (Inr False, s)),
     os_ReadFile = (\<lambda>file s. (Inr [], s)),
     yaml_Unmarshal = (\<lambda>data. Inr []),
     filepath_Join = (\<lambda>dir name. dir @ ''/'' @ name),
     totp_URI = (\<lambda>c. ''otpauth://totp/'' @ totp_Issuer c @ '':'' @ totp_Username c),
     totp_Image = (\<lambda>c. None),
     png_Encode = (\<lambda>file c. None),
     flagsGetTOTPExportOptions = (\<lambda>flags. Inr (storageTOTPExportFormatCSV, [])),
     flagsGetUserIdentifiersGenerateOptions = (\<lambda>flags. Inr ([], [], [])),
     validIdentifierServices = [''openid''],
     identifierServiceOpenIDConnect = ''openid'',
     uuid_Parse = (\<lambda>str. Inl (New ''invalid UUID length'')),
     uuid_Version = (\<lambda>u. unat (drop_bit 76 u) mod 16),
     uuid_String = (\<lambda>u. []),
     uuid_NewRandom = (\<lambda>s. case st_uuids s of
                               [] \<Rightarrow> (Inl (New ''EOF''), s)
                             | u # us \<Rightarrow> (Inr u, s\<lparr>st_uuids := us\<rparr>))
   \<rparr>"

text \<open>A world in which nothing has happened yet, a store and flag sets to start from.\<close>

definition initial :: "'s \<Rightarrow> 's world" where
  "initial s = \<lparr>backend = s, calls = [], stdout = [], files = []\<rparr>"

definition empty_store :: store where
  "empty_store = \<lparr>st_version = 1, st_identifiers = [], st_devices = [], st_totp = [], st_typed = [],
                   st_uuids = [], st_key = ''a_very_long_and_secure_key''\<rparr>"

definition no_flags :: FlagSet where
  "no_flags = \<lparr>GetInt = (\<lambda>name. Inr 0), GetString = (\<lambda>name. Inr []), Changed = (\<lambda>name. False)\<rparr>"

text \<open>The flag set in which one flag has been given a string value on the command line.\<close>

definition set_string :: "flagname \<Rightarrow> string \<Rightarrow> FlagSet \<Rightarrow> FlagSet" where
  "set_string name v flags =
     flags\<lparr>GetString := (GetString flags)(name := Inr v), Changed := (Changed flags)(name := True)\<rparr>"

definition set_int :: "flagname \<Rightarrow> int \<Rightarrow> FlagSet \<Rightarrow> FlagSet" where
  "set_int name v flags =
     flags\<lparr>GetInt := (GetInt flags)(name := Inr v), Changed := (Changed flags)(name := True)\<rparr>"

subsection \<open>What the generate command is expected to do\<close>

text \<open>
  The candidates of a bulk generation: the Cartesian product of services, sectors and users
  in the order of the three nested loops, service outermost and user innermost.
\<close>

definition tuples :: "string list \<Rightarrow> string list \<Rightarrow> string list \<Rightarrow> UserOpaqueIdentifier list" where
  "tuples services sectors users =
     concat (map (\<lambda>service. concat (map (\<lambda>sector. map (newUserOpaqueIdentifier service sector) users) sectors))
               services)"

text \<open>The natural key of an identifier: the record without its UUID.\<close>

definition natural_key :: "UserOpaqueIdentifier \<Rightarrow> UserOpaqueIdentifier" where
  "natural_key x = x\<lparr>Identifier := 0\<rparr>"

text \<open>The two calls that add an identifier: the UUID is generated, the record is saved.\<close>

definition generated :: "UserOpaqueIdentifier \<Rightarrow> call list" where
  "generated x = [CallNewRandom (Inr (Identifier x)), CallSaveUserOpaqueIdentifier x None]"

text \<open>The calls of a candidate on which the generation stops, and the error it stops with.\<close>

definition generation_failed :: "UserOpaqueIdentifier \<Rightarrow> call list \<Rightarrow> error \<Rightarrow> bool" where
  "generation_failed x cs err =
     ((\<exists>e. cs = [CallNewRandom (Inl e)] \<and> err = errGenerateUUID e) \<or>
      (\<exists>u e. cs = [CallNewRandom (Inr u), CallSaveUserOpaqueIdentifier (x\<lparr>Identifier := u\<rparr>) (Some e)] \<and>
             err = errSaveIdentifier e))"

text \<open>
  The outcome of the loops over a list of candidates, from counters \<open>added\<close>, \<open>duplicates\<close>
  and a world: the candidates that are not among the existing identifiers are added one after
  the other, up to the first that fails if one does; without a failure the counters have
  grown by the numbers of added candidates and of duplicates.
\<close>

definition generate_outcome ::
  "UserOpaqueIdentifier list \<Rightarrow> UserOpaqueIdentifier list \<Rightarrow> nat \<times> nat \<times> 's world
    \<Rightarrow> error option \<times> nat \<times> nat \<times> 's world \<Rightarrow> bool" where
  "generate_outcome existing candidates st out =
     (case st of (added, duplicates, w) \<Rightarrow> case out of (res, added', duplicates', w') \<Rightarrow>
        stdout w' = stdout w \<and> files w' = files w \<and>
        (\<exists>k ys tail.
           k \<le> length (filter (\<lambda>x. \<not> containsIdentifier x existing) candidates) \<and>
           map natural_key ys = take k (filter (\<lambda>x. \<not> containsIdentifier x existing) candidates) \<and>
           calls w' = calls w @ concat (map generated ys) @ tail \<and>
           (case res of
              None \<Rightarrow>
                k = length (filter (\<lambda>x. \<not> containsIdentifier x existing) candidates) \<and> tail = [] \<and>
                added' = added + length (filter (\<lambda>x. \<not> containsIdentifier x existing) candidates) \<and>
                duplicates' = duplicates + length (filter (\<lambda>x. containsIdentifier x existing) candidates)
            | Some err \<Rightarrow>
                k < length (filter (\<lambda>x. \<not> containsIdentifier x existing) candidates) \<and>
                generation_failed (filter (\<lambda>x. \<not> containsIdentifier x existing) candidates ! k) tail err)))"

text \<open>Instances: identifiers of two users, an import file that holds a given list, and a store
  whose save rejects one user.\<close>

definition sample_identifier :: "string \<Rightarrow> UUID \<Rightarrow> UserOpaqueIdentifier" where
  "sample_identifier username u = \<lparr>Service = ''openid'', SectorID = [], Username = username, Identifier = u\<rparr>"




definition generate_env :: "string list \<Rightarrow> string list \<Rightarrow> string list \<Rightarrow> store env" where
  "generate_env users services sectors =
     mem_env\<lparr>flagsGetUserIdentifiersGenerateOptions := (\<lambda>flags. Inr (users, services, sectors))\<rparr>"

definition bob_store :: store where
  "bob_store = empty_store\<lparr>st_identifiers := [sample_identifier ''bob'' 2], st_uuids := [7]\<rparr>"

text \<open>Two UUIDs, of version 1 and of version 4, and a parser that knows their texts.\<close>

definition uuid_v1 :: UUID where
  "uuid_v1 = 0x6ba7b8109dad11d180b400c04fd430c8"

definition uuid_v4 :: UUID where
  "uuid_v4 = 0xf47ac10b58cc4372a5670e02b2c3d479"

definition add_env :: "store env" where
  "add_env = mem_env\<lparr>uuid_Parse :=
     (\<lambda>str. if str = ''6ba7b810-9dad-11d1-80b4-00c04fd430c8'' then Inr uuid_v1
             else if str = ''f47ac10b-58cc-4372-a567-0e02b2c3d479'' then Inr uuid_v4
             else Inl (New ''invalid UUID format''))\<rparr>"

text \<open>A store with ten WebAuthn devices and two TOTP configurations.\<close>

definition ten_devices :: "WebauthnDevice list" where
  "ten_devices = map (\<lambda>i. \<lparr>device_ID = int i, device_KID = ''kid'', device_Description = ''key'',
                              device_Username = ''alice''\<rparr>) [0..<10]"

definition two_configurations :: "TOTPConfiguration list" where
  "two_configurations = map (\<lambda>u. \<lparr>totp_Issuer = ''authelia.com'', totp_Username = u, totp_Algorithm = ''SHA1'',
                                     totp_Digits = 6, totp_Period = 30, totp_Secret = ''JBSWY3DPEHPK3PXP''\<rparr>)
                           [''alice'', ''bob'']"

definition ten_store :: store where
  "ten_store = empty_store\<lparr>st_devices := ten_devices, st_totp := two_configurations\<rparr>"

text \<open>Collaborators whose schema check passes and whose schema is at version 0.\<close>

definition unmigrated_env :: "store env" where
  "unmigrated_env = mem_env\<lparr>SchemaVersion := (\<lambda>s. (Inr 0, s))\<rparr>"

text \<open>
  The number of characters of a text held in a Go string. A Go string holds text in UTF-8: a
  character takes one to four bytes, of which the first is outside \<open>0x80..0xBF\<close> and the others
  are inside. The characters of a well-formed text are as many as its bytes outside that range
  (\<open>utf8.RuneCountInString\<close>). The commands do not count characters: \<open>len\<close> counts bytes.
\<close>

definition characters :: "string \<Rightarrow> nat" where
  "characters s = length (filter (\<lambda>c. \<not> (0x80 \<le> (of_char c :: nat) \<and> (of_char c :: nat) < 0xC0)) s)"

text \<open>A key of ten characters, each the letter e with an acute accent, \<open>0xC3 0xA9\<close> in UTF-8.\<close>

definition accented_key :: string where
  "accented_key = [CHR 0xC3, CHR 0xA9, CHR 0xC3, CHR 0xA9, CHR 0xC3, CHR 0xA9, CHR 0xC3, CHR 0xA9,
                   CHR 0xC3, CHR 0xA9, CHR 0xC3, CHR 0xA9, CHR 0xC3, CHR 0xA9, CHR 0xC3, CHR 0xA9,
                   CHR 0xC3, CHR 0xA9, CHR 0xC3, CHR 0xA9]"

text \<open>The outcome of a run satisfies a postcondition.\<close>

definition sat :: "'a \<Rightarrow> ('a \<Rightarrow> bool) \<Rightarrow> bool" where
  "sat x Q = Q x"

section \<open>Reasoning about runs\<close>

lemma Printf_proj [simp]:
  "calls (Printf s w) = calls w" "backend (Printf s w) = backend w" "files (Printf s w) = files w"
  "stdout (Printf s w) = stdout w @ s"
  by (simp_all add: Printf_def)

lemma initial_proj [simp]:
  "calls (initial s) = []" "backend (initial s) = s" "stdout (initial s) = []" "files (initial s) = []"
  by (simp_all add: initial_def)

lemma new_calls_eq [simp]: "calls w' = calls w @ cs \<Longrightarrow> new_calls w w' = cs"
  by (simp add: new_calls_def)

lemma new_calls_initial [simp]: "new_calls (initial s) w' = calls w'"
  by (simp add: new_calls_def)

text \<open>
  The rules below take a run apart along the text of its definition. A call to a collaborator
  may return anything; what it returned is in the transcript from then on.
\<close>

lemma sat_leaf: "Q x \<Longrightarrow> sat x Q"
  by (simp add: sat_def)

lemma sat_mono: "sat x Q' \<Longrightarrow> (\<And>y. Q' y \<Longrightarrow> Q y) \<Longrightarrow> sat x Q"
  by (simp add: sat_def)

lemma sat_invoke:
  assumes "\<And>r w1. f (backend w) = (r, backend w1) \<Longrightarrow> calls w1 = calls w @ [c r] \<Longrightarrow>
             stdout w1 = stdout w \<Longrightarrow> files w1 = files w \<Longrightarrow> Q (r, w1)"
  shows "sat (invoke c f w) Q"
  using assms by (cases "f (backend w)") (simp add: sat_def invoke_def)

lemma sat_invoke_case:
  assumes "\<And>r w1. f (backend w) = (r, backend w1) \<Longrightarrow> calls w1 = calls w @ [c r] \<Longrightarrow>
             stdout w1 = stdout w \<Longrightarrow> files w1 = files w \<Longrightarrow> sat (K r w1) Q"
  shows "sat (case invoke c f w of (r, w1) \<Rightarrow> K r w1) Q"
  using assms by (cases "f (backend w)") (simp add: invoke_def)

lemma sat_if: "(b \<Longrightarrow> sat A Q) \<Longrightarrow> (\<not> b \<Longrightarrow> sat B Q) \<Longrightarrow> sat (if b then A else B) Q"
  by simp

lemma sat_sum:
  "(\<And>e. x = Inl e \<Longrightarrow> sat (f e) Q) \<Longrightarrow> (\<And>v. x = Inr v \<Longrightarrow> sat (g v) Q)
    \<Longrightarrow> sat (case x of Inl e \<Rightarrow> f e | Inr v \<Rightarrow> g v) Q"
  by (cases x) simp_all

lemma sat_option:
  "(x = None \<Longrightarrow> sat a Q) \<Longrightarrow> (\<And>v. x = Some v \<Longrightarrow> sat (g v) Q)
    \<Longrightarrow> sat (case x of None \<Rightarrow> a | Some v \<Rightarrow> g v) Q"
  by (cases x) simp_all

lemma sat_list:
  "(x = [] \<Longrightarrow> sat a Q) \<Longrightarrow> (\<And>v vs. x = v # vs \<Longrightarrow> sat (g v vs) Q)
    \<Longrightarrow> sat (case x of [] \<Rightarrow> a | v # vs \<Rightarrow> g v vs) Q"
  by (cases x) simp_all

lemma sat_case_Pair: "sat (K r w) Q \<Longrightarrow> sat (case (r, w) of (r, w1) \<Rightarrow> K r w1) Q"
  by simp

lemma sat_case_if:
  "(b \<Longrightarrow> sat (case X of (r, w1) \<Rightarrow> K r w1) Q) \<Longrightarrow> (\<not> b \<Longrightarrow> sat (case Y of (r, w1) \<Rightarrow> K r w1) Q)
    \<Longrightarrow> sat (case (if b then X else Y) of (r, w1) \<Rightarrow> K r w1) Q"
  by simp

lemma sat_case_comp:
  "sat T Q' \<Longrightarrow> (\<And>r w1. Q' (r, w1) \<Longrightarrow> sat (K r w1) Q) \<Longrightarrow> sat (case T of (r, w1) \<Rightarrow> K r w1) Q"
  by (cases T) (simp add: sat_def)

lemma sat_closeAfter:
  assumes "sat T (\<lambda>(r, w1). \<forall>rc w2. calls w2 = calls w1 @ [CallClose rc] \<longrightarrow> stdout w2 = stdout w1 \<longrightarrow>
                     files w2 = files w1 \<longrightarrow> Q (r, w2))"
  shows "sat (closeAfter ctx T) Q"
  using assms by (simp add: sat_def closeAfter_def invoke_def split: prod.splits)

lemma sat_checkSchema_case:
  assumes "\<And>e w1. calls w1 = calls w @ [CallCheckSchemaVersion (Some e)] \<Longrightarrow> stdout w1 = stdout w \<Longrightarrow>
             files w1 = files w \<Longrightarrow> sat (K (Some (storageWrapCheckSchemaErr ctx e)) w1) Q"
      and "\<And>w1. CheckSchemaVersion ctx (backend w) = (None, backend w1) \<Longrightarrow>
             calls w1 = calls w @ [CallCheckSchemaVersion None] \<Longrightarrow> stdout w1 = stdout w \<Longrightarrow>
             files w1 = files w \<Longrightarrow> sat (K None w1) Q"
  shows "sat (case checkSchema ctx w of (r, w1) \<Rightarrow> K r w1) Q"
  unfolding checkSchema_def
  apply (cases "CheckSchemaVersion ctx (backend w)")
  subgoal for r s
    using assms(1) [of "w\<lparr>backend := s, calls := calls w @ [CallCheckSchemaVersion r]\<rparr>"]
          assms(2) [of "w\<lparr>backend := s, calls := calls w @ [CallCheckSchemaVersion r]\<rparr>"]
    by (cases r) (simp_all add: invoke_def)
  done


lemma sat_checkSchema_result:
  assumes "\<And>e w1. CheckSchemaVersion ctx (backend w) = (Some e, backend w1) \<Longrightarrow>
             calls w1 = calls w @ [CallCheckSchemaVersion (Some e)] \<Longrightarrow> stdout w1 = stdout w \<Longrightarrow>
             files w1 = files w \<Longrightarrow> sat (K (Some (storageWrapCheckSchemaErr ctx e)) w1) Q"
      and "\<And>w1. CheckSchemaVersion ctx (backend w) = (None, backend w1) \<Longrightarrow>
             calls w1 = calls w @ [CallCheckSchemaVersion None] \<Longrightarrow> stdout w1 = stdout w \<Longrightarrow>
             files w1 = files w \<Longrightarrow> sat (K None w1) Q"
  shows "sat (case checkSchema ctx w of (r, w1) \<Rightarrow> K r w1) Q"
  unfolding checkSchema_def
  apply (cases "CheckSchemaVersion ctx (backend w)")
  subgoal for r s
    using assms(1) [of _ "w\<lparr>backend := s, calls := calls w @ [CallCheckSchemaVersion r]\<rparr>"]
          assms(2) [of "w\<lparr>backend := s, calls := calls w @ [CallCheckSchemaVersion r]\<rparr>"]
    by (cases r) (simp_all add: invoke_def)
  done

lemma sat_termReadConfirmation_case:
  assumes "\<And>e w1. calls w1 = calls w @ [CallTermReadLine prompt (Inl e)] \<Longrightarrow> stdout w1 = stdout w \<Longrightarrow>
             files w1 = files w \<Longrightarrow> sat (K (Inl e) w1) Q"
      and "\<And>input w1. calls w1 = calls w @ [CallTermReadLine prompt (Inr input)] \<Longrightarrow> stdout w1 = stdout w \<Longrightarrow>
             files w1 = files w \<Longrightarrow> sat (K (Inr (input = confirmation)) w1) Q"
  shows "sat (case termReadConfirmation ctx flags name prompt confirmation w of (r, w1) \<Rightarrow> K r w1) Q"
  unfolding termReadConfirmation_def
  apply (cases "termReadLine ctx prompt (backend w)")
  subgoal for r s
    using assms(1) [of "w\<lparr>backend := s, calls := calls w @ [CallTermReadLine prompt r]\<rparr>"]
          assms(2) [of "w\<lparr>backend := s, calls := calls w @ [CallTermReadLine prompt r]\<rparr>"]
    by (cases r) (simp_all add: invoke_def)
  done

lemma sat_case_sum:
  "(\<And>e. x = Inl e \<Longrightarrow> sat (case f e of (r, w1) \<Rightarrow> K r w1) Q)
    \<Longrightarrow> (\<And>v. x = Inr v \<Longrightarrow> sat (case g v of (r, w1) \<Rightarrow> K r w1) Q)
    \<Longrightarrow> sat (case (case x of Inl e \<Rightarrow> f e | Inr v \<Rightarrow> g v) of (r, w1) \<Rightarrow> K r w1) Q"
  by (cases x) simp_all

lemma sat_prod:
  "(\<And>a b. x = (a, b) \<Longrightarrow> sat (f a b) Q) \<Longrightarrow> sat (case x of (a, b) \<Rightarrow> f a b) Q"
  by (cases x) simp

lemmas sat_steps =
  sat_case_Pair sat_case_if sat_case_sum sat_closeAfter sat_checkSchema_case sat_termReadConfirmation_case
  sat_invoke_case sat_invoke sat_if sat_sum sat_option sat_list sat_prod sat_leaf

text \<open>Running a command on the collaborators in memory.\<close>

lemma mem_invoke:
  "invoke c f w = (fst (f (backend w)),
     w\<lparr>backend := snd (f (backend w)), calls := calls w @ [c (fst (f (backend w)))]\<rparr>)"
  by (simp add: invoke_def split: prod.splits)

lemmas mem_run =
  mem_invoke deferClose_def closeAfter_def checkSchema_def mem_env_def mem_read_def initial_def
  empty_store_def no_flags_def set_int_def set_string_def Let_def Printf_def

section \<open>Migrations\<close>

text \<open>
  C10. A down migration without the target flag returns an error; the only call it makes to a
  collaborator is the deferred \<open>Close\<close>: the operator is not asked for a confirmation and
  \<open>SchemaMigrate\<close> is not called, with no target at all (there is no default to the latest
  version, which only the up migration has). When the flag set can read the target flag at
  all, the error is "you must set a target version".
\<close>

theorem down_migration_needs_target:
  "\<not> Changed flags cmdFlagNameTarget \<Longrightarrow>
     (case NewStorageMigrationRunE ctx False flags w of (res, w') \<Rightarrow>
        res \<noteq> None \<and> (\<exists>rc. new_calls w w' = [CallClose rc]) \<and>
        (\<forall>target. GetInt flags cmdFlagNameTarget = Inr target \<longrightarrow> res = Some errTargetRequired))"
  (is "_ \<Longrightarrow> case_prod ?Q ?run")
proof -
  assume "\<not> Changed flags cmdFlagNameTarget"
  then have "sat ?run (case_prod ?Q)"
    unfolding NewStorageMigrationRunE_def deferClose_def
    by (intro sat_steps) auto
  then show ?thesis
    by (simp add: sat_def)
qed

theorem down_migration_needs_target_witness:
  "\<not> Changed no_flags cmdFlagNameTarget \<and>
   (case NewStorageMigrationRunE mem_env False no_flags (initial empty_store) of (res, w') \<Rightarrow>
      res = Some errTargetRequired \<and> new_calls (initial empty_store) w' = [CallClose None])"
  using down_migration_needs_target [where flags = no_flags and ctx = mem_env and w = "initial empty_store"]
  by (simp add: NewStorageMigrationRunE_def mem_run)

text \<open>
  C2. A down migration calls \<open>SchemaMigrate\<close> only after the operator has typed exactly
  DESTROY. If the transcript of the run does not hold a terminal read that returned the
  line DESTROY (no read at all, a failed read, or any other line), the command returns an error
  and \<open>SchemaMigrate\<close> is not called. If \<open>SchemaMigrate\<close> is called, the run is: read DESTROY
  from the terminal, migrate down to the target of the flag, close.
\<close>

theorem down_migration_confirmation:
  "(case NewStorageMigrationRunE ctx False flags w of (res, w') \<Rightarrow>
     let cs = new_calls w w' in
     (CallTermReadLine destroyPrompt (Inr ''DESTROY'') \<notin> set cs \<longrightarrow>
        res \<noteq> None \<and> (\<forall>up target r. CallSchemaMigrate up target r \<notin> set cs)) \<and>
     (\<forall>up target r. CallSchemaMigrate up target r \<in> set cs \<longrightarrow>
        up = False \<and> Changed flags cmdFlagNameTarget \<and> GetInt flags cmdFlagNameTarget = Inr target \<and>
        res = r \<and>
        (\<exists>rc. cs = [CallTermReadLine destroyPrompt (Inr ''DESTROY''), CallSchemaMigrate False target r, CallClose rc])))"
  (is "case_prod ?Q ?run")
proof -
  have "sat ?run (case_prod ?Q)"
    unfolding NewStorageMigrationRunE_def deferClose_def
    by (intro sat_steps) (auto simp: confirmationDESTROY_def)
  then show ?thesis
    by (simp add: sat_def)
qed

lemma down_migration_mistyped:
  "NewStorageMigrationRunE mem_env False (set_int cmdFlagNameTarget 0 no_flags)
     (initial (empty_store\<lparr>st_typed := [''destroy'']\<rparr>))
   = (Some errDownCancelled,
      \<lparr>backend = empty_store, calls = [CallTermReadLine destroyPrompt (Inr ''destroy''), CallClose None],
        stdout = [], files = []\<rparr>)"
  by (simp add: NewStorageMigrationRunE_def termReadConfirmation_def confirmationDESTROY_def mem_run)

lemma down_migration_typed:
  "NewStorageMigrationRunE mem_env False (set_int cmdFlagNameTarget 0 no_flags)
     (initial (empty_store\<lparr>st_typed := [''DESTROY'']\<rparr>))
   = (None,
      \<lparr>backend = empty_store\<lparr>st_version := 0\<rparr>,
        calls = [CallTermReadLine destroyPrompt (Inr ''DESTROY''), CallSchemaMigrate False 0 None, CallClose None],
        stdout = [], files = []\<rparr>)"
  by (simp add: NewStorageMigrationRunE_def termReadConfirmation_def confirmationDESTROY_def mem_run)

theorem down_migration_confirmation_witness:
  "(case NewStorageMigrationRunE mem_env False (set_int cmdFlagNameTarget 0 no_flags)
           (initial (empty_store\<lparr>st_typed := [''destroy'']\<rparr>)) of (res, w') \<Rightarrow>
      CallTermReadLine destroyPrompt (Inr ''DESTROY'') \<notin> set (calls w') \<and>
      res \<noteq> None \<and> (\<forall>up target r. CallSchemaMigrate up target r \<notin> set (calls w'))) \<and>
   (case NewStorageMigrationRunE mem_env False (set_int cmdFlagNameTarget 0 no_flags)
           (initial (empty_store\<lparr>st_typed := [''DESTROY'']\<rparr>)) of (res, w') \<Rightarrow>
      CallSchemaMigrate False 0 None \<in> set (calls w') \<and> res = None \<and>
      calls w' = [CallTermReadLine destroyPrompt (Inr ''DESTROY''), CallSchemaMigrate False 0 None, CallClose None])"
  using down_migration_confirmation [where ctx = mem_env and flags = "set_int cmdFlagNameTarget 0 no_flags"
           and w = "initial (empty_store\<lparr>st_typed := [''destroy'']\<rparr>)"]
        down_migration_confirmation [where ctx = mem_env and flags = "set_int cmdFlagNameTarget 0 no_flags"
           and w = "initial (empty_store\<lparr>st_typed := [''DESTROY'']\<rparr>)"]
  by (simp add: down_migration_mistyped down_migration_typed)

section \<open>Changing the encryption key\<close>

text \<open>
  C4 (amended). The length of the key is counted in bytes, as \<open>len\<close> does.
  \<open>SchemaEncryptionChangeKey\<close> is called only with a key of at least 20 bytes and only after
  \<open>SchemaVersion\<close> has returned a version of at least 1. If \<open>SchemaVersion\<close> returned a version
  of 0 or less, or if the new key (the non-empty value of the flag, or else the line read at
  the prompt) is shorter than 20 bytes, the empty key included, the command returns an error and
  \<open>SchemaEncryptionChangeKey\<close> is not called. A run without error has called it. When the schema
  check passes, \<open>SchemaVersion\<close> returns a version and the flag holds a non-empty key, the calls
  of the run are known: with a version of 0 or less, or a key shorter than 20 bytes, the check,
  the version and the close; otherwise also \<open>SchemaEncryptionChangeKey\<close> with that key, whose
  result is the result of the command.
\<close>

theorem change_key_guards:
  "(case StorageSchemaEncryptionChangeKeyRunE ctx flags w of (res, w') \<Rightarrow>
     let cs = new_calls w w' in
     (\<forall>key r. CallSchemaEncryptionChangeKey key r \<in> set cs \<longrightarrow>
        20 \<le> length key \<and> key \<noteq> [] \<and> (\<exists>version. 1 \<le> version \<and> CallSchemaVersion (Inr version) \<in> set cs)) \<and>
     (\<forall>version. CallSchemaVersion (Inr version) \<in> set cs \<and> version \<le> 0 \<longrightarrow>
        res \<noteq> None \<and> (\<forall>key r. CallSchemaEncryptionChangeKey key r \<notin> set cs)) \<and>
     (\<forall>key. length key < 20 \<and>
            ((Changed flags cmdFlagNameNewEncryptionKey \<and> GetString flags cmdFlagNameNewEncryptionKey = Inr key \<and> key \<noteq> [])
             \<or> CallTermReadPassword newKeyPrompt (Inr key) \<in> set cs) \<longrightarrow>
        res \<noteq> None \<and> (\<forall>key r. CallSchemaEncryptionChangeKey key r \<notin> set cs)) \<and>
     (res = None \<longrightarrow> (\<exists>key. CallSchemaEncryptionChangeKey key None \<in> set cs)) \<and>
     (\<forall>s version s1 key.
        CheckSchemaVersion ctx (backend w) = (None, s) \<and> SchemaVersion ctx s = (Inr version, s1) \<and>
        Changed flags cmdFlagNameNewEncryptionKey \<and> GetString flags cmdFlagNameNewEncryptionKey = Inr key \<and>
        key \<noteq> [] \<longrightarrow>
        (if version \<le> 0 then
           res = Some errSchemaVersionTooLow \<and>
           (\<exists>rc. cs = [CallCheckSchemaVersion None, CallSchemaVersion (Inr version), CallClose rc])
         else if length key < 20 then
           res = Some errKeyShort \<and>
           (\<exists>rc. cs = [CallCheckSchemaVersion None, CallSchemaVersion (Inr version), CallClose rc])
         else
           (\<exists>rc. cs = [CallCheckSchemaVersion None, CallSchemaVersion (Inr version),
                        CallSchemaEncryptionChangeKey key res, CallClose rc]))))"
  (is "case_prod ?Q ?run")
proof -
  have "sat ?run (case_prod ?Q)"
    unfolding StorageSchemaEncryptionChangeKeyRunE_def deferClose_def Let_def
    by (intro sat_checkSchema_result sat_steps) auto
  then show ?thesis
    by (simp add: sat_def)
qed

lemma change_key_short:
  "StorageSchemaEncryptionChangeKeyRunE mem_env (set_string cmdFlagNameNewEncryptionKey ''0123456789012345678'' no_flags)
     (initial empty_store)
   = (Some errKeyShort,
      \<lparr>backend = empty_store, calls = [CallCheckSchemaVersion None, CallSchemaVersion (Inr 1), CallClose None],
        stdout = [], files = []\<rparr>)"
  by (simp add: StorageSchemaEncryptionChangeKeyRunE_def mem_run)

lemma change_key_long:
  "StorageSchemaEncryptionChangeKeyRunE mem_env (set_string cmdFlagNameNewEncryptionKey ''01234567890123456789'' no_flags)
     (initial empty_store)
   = (None,
      \<lparr>backend = empty_store\<lparr>st_key := ''01234567890123456789''\<rparr>,
        calls = [CallCheckSchemaVersion None, CallSchemaVersion (Inr 1),
                 CallSchemaEncryptionChangeKey ''01234567890123456789'' None, CallClose None],
        stdout = msgKeyChanged, files = []\<rparr>)"
  by (simp add: StorageSchemaEncryptionChangeKeyRunE_def mem_run)

lemma change_key_unmigrated:
  "StorageSchemaEncryptionChangeKeyRunE unmigrated_env
     (set_string cmdFlagNameNewEncryptionKey ''01234567890123456789'' no_flags) (initial empty_store)
   = (Some errSchemaVersionTooLow,
      \<lparr>backend = empty_store, calls = [CallCheckSchemaVersion None, CallSchemaVersion (Inr 0), CallClose None],
        stdout = [], files = []\<rparr>)"
  by (simp add: StorageSchemaEncryptionChangeKeyRunE_def unmigrated_env_def mem_run)

theorem change_key_guards_witness:
  "CheckSchemaVersion mem_env (backend (initial empty_store)) = (None, empty_store) \<and>
   SchemaVersion mem_env empty_store = (Inr 1, empty_store) \<and>
   CheckSchemaVersion unmigrated_env (backend (initial empty_store)) = (None, empty_store) \<and>
   SchemaVersion unmigrated_env empty_store = (Inr 0, empty_store) \<and>
   Changed (set_string cmdFlagNameNewEncryptionKey ''0123456789012345678'' no_flags) cmdFlagNameNewEncryptionKey \<and>
   GetString (set_string cmdFlagNameNewEncryptionKey ''0123456789012345678'' no_flags) cmdFlagNameNewEncryptionKey
     = Inr ''0123456789012345678'' \<and>
   Changed (set_string cmdFlagNameNewEncryptionKey ''01234567890123456789'' no_flags) cmdFlagNameNewEncryptionKey \<and>
   GetString (set_string cmdFlagNameNewEncryptionKey ''01234567890123456789'' no_flags) cmdFlagNameNewEncryptionKey
     = Inr ''01234567890123456789'' \<and>
   (case StorageSchemaEncryptionChangeKeyRunE mem_env
           (set_string cmdFlagNameNewEncryptionKey ''0123456789012345678'' no_flags) (initial empty_store) of
      (res, w') \<Rightarrow>
        length ''0123456789012345678'' < 20 \<and> res = Some errKeyShort \<and>
        calls w' = [CallCheckSchemaVersion None, CallSchemaVersion (Inr 1), CallClose None]) \<and>
   (case StorageSchemaEncryptionChangeKeyRunE mem_env
           (set_string cmdFlagNameNewEncryptionKey ''01234567890123456789'' no_flags) (initial empty_store) of
      (res, w') \<Rightarrow>
        20 \<le> length ''01234567890123456789'' \<and> res = None \<and>
        calls w' = [CallCheckSchemaVersion None, CallSchemaVersion (Inr 1),
                    CallSchemaEncryptionChangeKey ''01234567890123456789'' None, CallClose None]) \<and>
   (case StorageSchemaEncryptionChangeKeyRunE unmigrated_env
           (set_string cmdFlagNameNewEncryptionKey ''01234567890123456789'' no_flags) (initial empty_store) of
      (res, w') \<Rightarrow>
        res = Some errSchemaVersionTooLow \<and>
        calls w' = [CallCheckSchemaVersion None, CallSchemaVersion (Inr 0), CallClose None])"
  using change_key_guards [where ctx = mem_env and w = "initial empty_store"
           and flags = "set_string cmdFlagNameNewEncryptionKey ''0123456789012345678'' no_flags"]
        change_key_guards [where ctx = mem_env and w = "initial empty_store"
           and flags = "set_string cmdFlagNameNewEncryptionKey ''01234567890123456789'' no_flags"]
        change_key_guards [where ctx = unmigrated_env and w = "initial empty_store"
           and flags = "set_string cmdFlagNameNewEncryptionKey ''01234567890123456789'' no_flags"]
  by (simp add: change_key_short change_key_long change_key_unmigrated)
     (simp add: unmigrated_env_def mem_env_def set_string_def no_flags_def empty_store_def)

text \<open>
  C4 as claimed, with the length of the key in characters, fails on a key of ten accented
  letters: it has 10 characters, fewer than 20, and 20 bytes, and the command calls
  \<open>SchemaEncryptionChangeKey\<close> with it and succeeds.
\<close>

theorem change_key_counts_bytes_counterexample:
  "characters accented_key = 10 \<and> length accented_key = 20 \<and>
   StorageSchemaEncryptionChangeKeyRunE mem_env (set_string cmdFlagNameNewEncryptionKey accented_key no_flags)
     (initial empty_store)
   = (None,
      \<lparr>backend = empty_store\<lparr>st_key := accented_key\<rparr>,
        calls = [CallCheckSchemaVersion None, CallSchemaVersion (Inr 1),
                 CallSchemaEncryptionChangeKey accented_key None, CallClose None],
        stdout = msgKeyChanged, files = []\<rparr>)"
proof -
  have chars: "characters accented_key = 10"
    by (simp add: characters_def accented_key_def)
  have bytes: "length accented_key = 20"
    by (simp add: accented_key_def)
  have nonempty: "accented_key \<noteq> []"
    using bytes by auto
  show ?thesis
    using nonempty by (simp add: chars bytes StorageSchemaEncryptionChangeKeyRunE_def mem_run)
qed

section \<open>Importing opaque identifiers\<close>









section \<open>Generating opaque identifiers\<close>

lemma generate_outcomeI:
  assumes "stdout w' = stdout w" "files w' = files w"
    and "k \<le> length (filter (\<lambda>x. \<not> containsIdentifier x existing) candidates)"
    and "map natural_key ys = take k (filter (\<lambda>x. \<not> containsIdentifier x existing) candidates)"
    and "calls w' = calls w @ concat (map generated ys) @ tail"
    and "case res of
           None \<Rightarrow>
             k = length (filter (\<lambda>x. \<not> containsIdentifier x existing) candidates) \<and> tail = [] \<and>
             a' = a + length (filter (\<lambda>x. \<not> containsIdentifier x existing) candidates) \<and>
             d' = d + length (filter (\<lambda>x. containsIdentifier x existing) candidates)
         | Some err \<Rightarrow>
             k < length (filter (\<lambda>x. \<not> containsIdentifier x existing) candidates) \<and>
             generation_failed (filter (\<lambda>x. \<not> containsIdentifier x existing) candidates ! k) tail err"
  shows "generate_outcome existing candidates (a, d, w) (res, a', d', w')"
  unfolding generate_outcome_def prod.case
  using assms by blast

lemma generate_outcomeE:
  assumes "generate_outcome existing candidates (a, d, w) (res, a', d', w')"
  obtains k ys tail where "stdout w' = stdout w" "files w' = files w"
    and "k \<le> length (filter (\<lambda>x. \<not> containsIdentifier x existing) candidates)"
    and "map natural_key ys = take k (filter (\<lambda>x. \<not> containsIdentifier x existing) candidates)"
    and "calls w' = calls w @ concat (map generated ys) @ tail"
    and "case res of
           None \<Rightarrow>
             k = length (filter (\<lambda>x. \<not> containsIdentifier x existing) candidates) \<and> tail = [] \<and>
             a' = a + length (filter (\<lambda>x. \<not> containsIdentifier x existing) candidates) \<and>
             d' = d + length (filter (\<lambda>x. containsIdentifier x existing) candidates)
         | Some err \<Rightarrow>
             k < length (filter (\<lambda>x. \<not> containsIdentifier x existing) candidates) \<and>
             generation_failed (filter (\<lambda>x. \<not> containsIdentifier x existing) candidates ! k) tail err"
  using assms unfolding generate_outcome_def prod.case by blast

lemma generate_outcome_Nil: "generate_outcome existing [] st (None, st)"
  by (cases st) (simp add: generate_outcome_def)

lemma generate_outcome_append_fail:
  assumes "generate_outcome existing c1 st (Some e, st1)"
  shows "generate_outcome existing (c1 @ c2) st (Some e, st1)"
proof -
  obtain a d w where st: "st = (a, d, w)" by (cases st)
  obtain a1 d1 w1 where st1: "st1 = (a1, d1, w1)" by (cases st1)
  let ?f1 = "filter (\<lambda>x. \<not> containsIdentifier x existing) c1"
  let ?f2 = "filter (\<lambda>x. \<not> containsIdentifier x existing) c2"
  from assms obtain k ys tail where out: "stdout w1 = stdout w" "files w1 = files w"
    "map natural_key ys = take k ?f1" "calls w1 = calls w @ concat (map generated ys) @ tail"
    "k < length ?f1" "generation_failed (?f1 ! k) tail e"
    unfolding st st1 by (elim generate_outcomeE) simp
  show ?thesis
    unfolding st st1
    by (rule generate_outcomeI [where k = k and ys = ys and tail = tail])
       (use out in \<open>simp_all add: nth_append\<close>)
qed

lemma generate_outcome_append:
  assumes "generate_outcome existing c1 st (None, st1)" and "generate_outcome existing c2 st1 out"
  shows "generate_outcome existing (c1 @ c2) st out"
proof -
  obtain a d w where st: "st = (a, d, w)" by (cases st)
  obtain a1 d1 w1 where st1: "st1 = (a1, d1, w1)" by (cases st1)
  obtain res a2 d2 w2 where out: "out = (res, a2, d2, w2)" by (cases out)
  let ?f1 = "filter (\<lambda>x. \<not> containsIdentifier x existing) c1"
  let ?f2 = "filter (\<lambda>x. \<not> containsIdentifier x existing) c2"
  let ?g1 = "filter (\<lambda>x. containsIdentifier x existing) c1"
  let ?g2 = "filter (\<lambda>x. containsIdentifier x existing) c2"
  from assms(1) obtain ys1 where one: "stdout w1 = stdout w" "files w1 = files w"
    "map natural_key ys1 = ?f1" "calls w1 = calls w @ concat (map generated ys1)"
    "a1 = a + length ?f1" "d1 = d + length ?g1"
    unfolding st st1 by (elim generate_outcomeE) simp
  from assms(2) obtain k ys2 tail where two: "stdout w2 = stdout w1" "files w2 = files w1"
    "k \<le> length ?f2" "map natural_key ys2 = take k ?f2"
    "calls w2 = calls w1 @ concat (map generated ys2) @ tail"
    "case res of None \<Rightarrow> k = length ?f2 \<and> tail = [] \<and> a2 = a1 + length ?f2 \<and> d2 = d1 + length ?g2
     | Some err \<Rightarrow> k < length ?f2 \<and> generation_failed (?f2 ! k) tail err"
    unfolding st1 out by (elim generate_outcomeE)
  show ?thesis
    unfolding st out
    by (rule generate_outcomeI [where k = "length ?f1 + k" and ys = "ys1 @ ys2" and tail = tail])
       (use one two in \<open>simp_all add: nth_append split: option.splits\<close>)
qed

lemma generate_outcome_duplicate:
  assumes "containsIdentifier x existing" and "generate_outcome existing c (a, d + 1, w) out"
  shows "generate_outcome existing (x # c) (a, d, w) out"
proof -
  obtain res a2 d2 w2 where out: "out = (res, a2, d2, w2)" by (cases out)
  from assms(2) obtain k ys tail where two: "stdout w2 = stdout w" "files w2 = files w"
    "k \<le> length (filter (\<lambda>x. \<not> containsIdentifier x existing) c)"
    "map natural_key ys = take k (filter (\<lambda>x. \<not> containsIdentifier x existing) c)"
    "calls w2 = calls w @ concat (map generated ys) @ tail"
    "case res of
       None \<Rightarrow> k = length (filter (\<lambda>x. \<not> containsIdentifier x existing) c) \<and> tail = [] \<and>
         a2 = a + length (filter (\<lambda>x. \<not> containsIdentifier x existing) c) \<and>
         d2 = d + 1 + length (filter (\<lambda>x. containsIdentifier x existing) c)
     | Some err \<Rightarrow> k < length (filter (\<lambda>x. \<not> containsIdentifier x existing) c) \<and>
         generation_failed (filter (\<lambda>x. \<not> containsIdentifier x existing) c ! k) tail err"
    unfolding out by (elim generate_outcomeE)
  show ?thesis
    unfolding out
    by (rule generate_outcomeI [where k = k and ys = ys and tail = tail])
       (use two assms(1) in \<open>simp_all split: option.splits\<close>)
qed

lemma generate_outcome_failed:
  assumes "\<not> containsIdentifier x existing" and "generation_failed x tail e"
    and "calls w1 = calls w @ tail" "stdout w1 = stdout w" "files w1 = files w"
  shows "generate_outcome existing (x # c) (a, d, w) (Some e, a1, d1, w1)"
  by (rule generate_outcomeI [where k = 0 and ys = "[]" and tail = tail])
     (use assms in simp_all)

lemma generate_outcome_added:
  assumes "\<not> containsIdentifier x existing" and "Identifier x = 0"
    and "calls w1 = calls w @ generated (x\<lparr>Identifier := u\<rparr>)" "stdout w1 = stdout w" "files w1 = files w"
    and "generate_outcome existing c (a + 1, d, w1) out"
  shows "generate_outcome existing (x # c) (a, d, w) out"
proof -
  obtain res a2 d2 w2 where out: "out = (res, a2, d2, w2)" by (cases out)
  let ?f = "filter (\<lambda>x. \<not> containsIdentifier x existing) c"
  let ?g = "filter (\<lambda>x. containsIdentifier x existing) c"
  from assms(6) obtain k ys tail where two: "stdout w2 = stdout w1" "files w2 = files w1"
    "k \<le> length ?f" "map natural_key ys = take k ?f"
    "calls w2 = calls w1 @ concat (map generated ys) @ tail"
    "case res of None \<Rightarrow> k = length ?f \<and> tail = [] \<and> a2 = a + 1 + length ?f \<and> d2 = d + length ?g
     | Some err \<Rightarrow> k < length ?f \<and> generation_failed (?f ! k) tail err"
    unfolding out by (elim generate_outcomeE)
  have key: "natural_key (x\<lparr>Identifier := u\<rparr>) = x"
    using assms(2) by (simp add: natural_key_def)
  show ?thesis
    unfolding out
    by (rule generate_outcomeI [where k = "Suc k" and ys = "x\<lparr>Identifier := u\<rparr> # ys" and tail = tail])
       (use two assms(1,3,4,5) key in \<open>simp_all split: option.splits\<close>)
qed

text \<open>The three nested loops run over the candidates in the order of \<open>tuples\<close>.\<close>

lemma sat_generateUsers:
  "sat (generateUsers ctx existing service sector users st)
     (generate_outcome existing (map (newUserOpaqueIdentifier service sector) users) st)"
proof (induction users arbitrary: st)
  case Nil
  show ?case by (simp add: sat_def generate_outcome_Nil)
next
  case (Cons username users)
  obtain a d w where st: "st = (a, d, w)" by (cases st)
  show ?case
    unfolding st generateUsers.simps Let_def list.map
    apply (intro sat_if sat_invoke_case sat_sum sat_option)
       apply (rule sat_mono [OF Cons.IH])
       apply (erule (1) generate_outcome_duplicate)
      apply (rule sat_leaf)
      apply (rule generate_outcome_failed; simp add: generation_failed_def)
     apply (rule sat_mono [OF Cons.IH])
     apply (erule generate_outcome_added [rotated -1]; simp add: generated_def newUserOpaqueIdentifier_def)
    apply (rule sat_leaf)
    apply (rule generate_outcome_failed; simp add: generation_failed_def)
    done
qed

lemma sat_generateSectors:
  "sat (generateSectors ctx existing service sectors users st)
     (generate_outcome existing
        (concat (map (\<lambda>sector. map (newUserOpaqueIdentifier service sector) users) sectors)) st)"
proof (induction sectors arbitrary: st)
  case Nil
  show ?case by (simp add: sat_def generate_outcome_Nil)
next
  case (Cons sector sectors)
  show ?case
    unfolding generateSectors.simps list.map concat.simps
    apply (rule sat_case_comp [OF sat_generateUsers])
    apply (intro sat_option)
     apply (rule sat_mono [OF Cons.IH])
     apply (simp add: generate_outcome_append)
    apply (rule sat_leaf)
    apply (simp add: generate_outcome_append_fail)
    done
qed

lemma sat_generateServices:
  "sat (generateServices ctx existing services sectors users st)
     (generate_outcome existing (tuples services sectors users) st)"
proof (induction services arbitrary: st)
  case Nil
  show ?case by (simp add: sat_def generate_outcome_Nil tuples_def)
next
  case (Cons service services)
  show ?case
    unfolding generateServices.simps tuples_def list.map concat.simps
    apply (rule sat_case_comp [OF sat_generateSectors])
    apply (intro sat_option)
     apply (rule sat_mono [OF Cons.IH])
     apply (simp add: generate_outcome_append tuples_def)
    apply (rule sat_leaf)
    apply (simp add: generate_outcome_append_fail)
    done
qed

lemmas sat_generateServices_case = sat_case_comp [OF sat_generateServices]



text \<open>
  \<open>errors.Is\<close> tells \<open>sql.ErrNoRows\<close>, also wrapped, from an error that only reads the same.
\<close>

lemma loadError_ErrNoRows:
  "loadError (Some (Sentinel sql_ErrNoRows)) = None"
  "loadError (Some (Wrap m (Sentinel sql_ErrNoRows))) = None"
  "loadError (Some (New (Error (Sentinel sql_ErrNoRows)))) = Some (New (Error (Sentinel sql_ErrNoRows)))"
  by (simp_all add: loadError_def)





lemma invalid_service:
  "service \<in> set services \<Longrightarrow> service \<notin> set valid \<Longrightarrow> \<not> IsStringSliceContainsAll services valid"
  by (auto simp: IsStringSliceContainsAll_def IsStringInSlice_def list_all_iff)

text \<open>
  C6. When one of the requested services is not among the valid services, the generation
  returns an error, and its transcript holds no save and no generation of a UUID. If the run
  got as far as the options (schema checked, identifiers loaded, at least one user), the error
  is the one that names the services, and the provider is closed right after the load.
\<close>

theorem generate_rejects_invalid_service:
  assumes "flagsGetUserIdentifiersGenerateOptions ctx flags = Inr (users, services, sectors)"
    and "service \<in> set services" and "service \<notin> set (validIdentifierServices ctx)"
  shows
  "(case StorageUserIdentifiersGenerateRunE ctx flags w of (res, w') \<Rightarrow>
      res \<noteq> None \<and>
      (\<forall>x r. CallSaveUserOpaqueIdentifier x r \<notin> set (new_calls w w')) \<and>
      (\<forall>r. CallNewRandom r \<notin> set (new_calls w w')) \<and>
      (\<forall>existing err.
         users \<noteq> [] \<and> loadError err = None \<and>
         take 2 (new_calls w w') = [CallCheckSchemaVersion None, CallLoadUserOpaqueIdentifiers (existing, err)] \<longrightarrow>
         res = Some (invalidServicesError services (validIdentifierServices ctx)) \<and>
         (\<exists>rc. drop 2 (new_calls w w') = [CallClose rc])))"
  (is "case_prod ?Q ?run")
proof -
  have "sat ?run (case_prod ?Q)"
    unfolding StorageUserIdentifiersGenerateRunE_def deferClose_def
    apply (intro sat_generateServices_case sat_steps)
    using assms invalid_service [OF assms(2,3)]
    apply auto
    done
  then show ?thesis
    by (simp add: sat_def)
qed

lemma generate_run_invalid:
  "StorageUserIdentifiersGenerateRunE (generate_env [''alice''] [''openid'', ''saml''] []) no_flags
     (initial bob_store)
   = (Some (invalidServicesError [''openid'', ''saml''] [''openid'']),
      \<lparr>backend = bob_store,
        calls = [CallCheckSchemaVersion None,
                 CallLoadUserOpaqueIdentifiers ([sample_identifier ''bob'' 2], None),
                 CallClose None],
        stdout = [], files = []\<rparr>)"
  by (simp add: StorageUserIdentifiersGenerateRunE_def generate_env_def bob_store_def
        loadError_def IsStringSliceContainsAll_def IsStringInSlice_def mem_run)

theorem generate_rejects_invalid_service_witness:
  "flagsGetUserIdentifiersGenerateOptions (generate_env [''alice''] [''openid'', ''saml''] []) no_flags
     = Inr ([''alice''], [''openid'', ''saml''], []) \<and>
   ''saml'' \<in> set [''openid'', ''saml''] \<and>
   ''saml'' \<notin> set (validIdentifierServices (generate_env [''alice''] [''openid'', ''saml''] [])) \<and>
   (case StorageUserIdentifiersGenerateRunE (generate_env [''alice''] [''openid'', ''saml''] []) no_flags
           (initial bob_store) of (res, w') \<Rightarrow>
      res = Some (invalidServicesError [''openid'', ''saml''] [''openid'']) \<and>
      (\<forall>x r. CallSaveUserOpaqueIdentifier x r \<notin> set (calls w')) \<and>
      (\<forall>r. CallNewRandom r \<notin> set (calls w')))"
  using generate_rejects_invalid_service [where ctx = "generate_env [''alice''] [''openid'', ''saml''] []"
          and flags = no_flags and w = "initial bob_store" and users = "[''alice'']"
          and services = "[''openid'', ''saml'']" and sectors = "[]" and service = "''saml''"]
  by (simp add: generate_run_invalid) (simp add: generate_env_def mem_env_def)

text \<open>
  C9. When the generation is given no user, it returns an error, and its transcript holds no
  save and no generation of a UUID, whatever the services and sectors. If the run got as far
  as the options (schema checked, identifiers loaded), the error is "must supply at least one
  user", and the provider is closed right after the load.
\<close>

theorem generate_needs_users:
  assumes "flagsGetUserIdentifiersGenerateOptions ctx flags = Inr ([], services, sectors)"
  shows
  "(case StorageUserIdentifiersGenerateRunE ctx flags w of (res, w') \<Rightarrow>
      res \<noteq> None \<and>
      (\<forall>x r. CallSaveUserOpaqueIdentifier x r \<notin> set (new_calls w w')) \<and>
      (\<forall>r. CallNewRandom r \<notin> set (new_calls w w')) \<and>
      (\<forall>existing err.
         loadError err = None \<and>
         take 2 (new_calls w w') = [CallCheckSchemaVersion None, CallLoadUserOpaqueIdentifiers (existing, err)] \<longrightarrow>
         res = Some errNoUsers \<and> (\<exists>rc. drop 2 (new_calls w w') = [CallClose rc])))"
  (is "case_prod ?Q ?run")
proof -
  have "sat ?run (case_prod ?Q)"
    unfolding StorageUserIdentifiersGenerateRunE_def deferClose_def
    apply (intro sat_generateServices_case sat_steps)
    using assms
    apply auto
    done
  then show ?thesis
    by (simp add: sat_def)
qed

lemma generate_run_no_users:
  "StorageUserIdentifiersGenerateRunE (generate_env [] [''openid''] [''sector'']) no_flags (initial bob_store)
   = (Some errNoUsers,
      \<lparr>backend = bob_store,
        calls = [CallCheckSchemaVersion None,
                 CallLoadUserOpaqueIdentifiers ([sample_identifier ''bob'' 2], None),
                 CallClose None],
        stdout = [], files = []\<rparr>)"
  by (simp add: StorageUserIdentifiersGenerateRunE_def generate_env_def bob_store_def loadError_def mem_run)

theorem generate_needs_users_witness:
  "flagsGetUserIdentifiersGenerateOptions (generate_env [] [''openid''] [''sector'']) no_flags
     = Inr ([], [''openid''], [''sector'']) \<and>
   (case StorageUserIdentifiersGenerateRunE (generate_env [] [''openid''] [''sector'']) no_flags
           (initial bob_store) of (res, w') \<Rightarrow>
      res = Some errNoUsers \<and>
      (\<forall>x r. CallSaveUserOpaqueIdentifier x r \<notin> set (calls w')) \<and>
      (\<forall>r. CallNewRandom r \<notin> set (calls w')))"
  using generate_needs_users [where ctx = "generate_env [] [''openid''] [''sector'']"
          and flags = no_flags and w = "initial bob_store" and services = "[''openid'']"
          and sectors = "[''sector'']"]
  by (simp add: generate_run_no_users) (simp add: generate_env_def mem_env_def)

section \<open>Adding one opaque identifier\<close>

lemma identifierVersionError_message:
  "Error (identifierVersionError identifierStr version)
     = ''the identifier providerd '' @ quote @ identifierStr @ quote @ '' is a version ''
       @ fmt_nat version @ '' UUID but only version 4 UUID'' @ quote @ ''s accepted as identifiers''"
  by (simp add: identifierVersionError_def)

text \<open>
  C5. Let the identifier flag be set, to the string \<open>identifierStr\<close>. If the string does not
  parse as a UUID, or parses as a UUID whose version is not 4, the command returns an error
  and makes no call at all to a collaborator: nothing is saved, the schema is not even
  checked. When the service and the sector have been accepted and a user is given, the error
  is the one that wraps the parse error, or the one whose message holds the version in decimal.
  Whatever the flags, an identifier that is saved is either the parsed value of the flag, of
  version 4, or, when the flag is not set, the UUID that \<open>uuid.NewRandom\<close> returned in this run.
\<close>

theorem add_accepts_only_version_4:
  "(case StorageUserIdentifiersAddRunE ctx flags args w of (res, w') \<Rightarrow>
      (\<forall>identifierStr.
         Changed flags cmdFlagNameIdentifier \<and> GetString flags cmdFlagNameIdentifier = Inr identifierStr \<longrightarrow>
         (\<forall>e. uuid_Parse ctx identifierStr = Inl e \<longrightarrow>
            res \<noteq> None \<and> new_calls w w' = [] \<and>
            (\<forall>service sector.
               GetString flags cmdFlagNameService = Inr service \<and>
               (service = [] \<or> IsStringInSlice service (validIdentifierServices ctx)) \<and>
               GetString flags cmdFlagNameSector = Inr sector \<and> args \<noteq> [] \<longrightarrow>
               res = Some (identifierParseError identifierStr e))) \<and>
         (\<forall>u. uuid_Parse ctx identifierStr = Inr u \<and> uuid_Version ctx u \<noteq> 4 \<longrightarrow>
            res \<noteq> None \<and> new_calls w w' = [] \<and>
            (\<forall>service sector.
               GetString flags cmdFlagNameService = Inr service \<and>
               (service = [] \<or> IsStringInSlice service (validIdentifierServices ctx)) \<and>
               GetString flags cmdFlagNameSector = Inr sector \<and> args \<noteq> [] \<longrightarrow>
               res = Some (identifierVersionError identifierStr (uuid_Version ctx u)) \<and>
               Error (identifierVersionError identifierStr (uuid_Version ctx u))
                 = ''the identifier providerd '' @ quote @ identifierStr @ quote @ '' is a version ''
                   @ fmt_nat (uuid_Version ctx u) @ '' UUID but only version 4 UUID'' @ quote
                   @ ''s accepted as identifiers''))) \<and>
      (\<forall>x r. CallSaveUserOpaqueIdentifier x r \<in> set (new_calls w w') \<longrightarrow>
         (if Changed flags cmdFlagNameIdentifier
          then \<exists>identifierStr. GetString flags cmdFlagNameIdentifier = Inr identifierStr \<and>
                 uuid_Parse ctx identifierStr = Inr (Identifier x) \<and> uuid_Version ctx (Identifier x) = 4
          else CallNewRandom (Inr (Identifier x)) \<in> set (new_calls w w'))))"
  (is "case_prod ?Q ?run")
proof -
  have "sat ?run (case_prod ?Q)"
    unfolding StorageUserIdentifiersAddRunE_def deferClose_def Let_def
    apply (intro sat_steps)
    apply (auto simp: identifierVersionError_message split: if_splits)
    done
  then show ?thesis
    by (simp add: sat_def)
qed

text \<open>
  C8. Let the service flag read as \<open>service\<close>. An empty service is not rejected: every
  identifier the command saves then has the OpenID Connect service, and if the command fails
  it is for the sector flag, the missing user, the identifier flag, the generation of the UUID,
  the schema check or the save, never for the service. A service of the valid set is kept as
  it is. Only a non-empty service outside the valid set is rejected, with the error that names
  it and with no call to a collaborator.
\<close>

theorem add_defaults_empty_service:
  assumes "GetString flags cmdFlagNameService = Inr service"
  shows
  "(case StorageUserIdentifiersAddRunE ctx flags args w of (res, w') \<Rightarrow>
      (service = [] \<or> IsStringInSlice service (validIdentifierServices ctx) \<longrightarrow>
         (\<forall>x r. CallSaveUserOpaqueIdentifier x r \<in> set (new_calls w w') \<longrightarrow>
            Service x = (if service = [] then identifierServiceOpenIDConnect ctx else service)) \<and>
         (res = None \<longrightarrow> (\<exists>x. CallSaveUserOpaqueIdentifier x None \<in> set (new_calls w w'))) \<and>
         (res \<noteq> None \<longrightarrow>
            (\<exists>e. GetString flags cmdFlagNameSector = Inl e \<and> res = Some e) \<or>
            (args = [] \<and> res = Some panicIndex) \<or>
            (Changed flags cmdFlagNameIdentifier \<and>
               (\<forall>identifierStr u. GetString flags cmdFlagNameIdentifier = Inr identifierStr \<and>
                  uuid_Parse ctx identifierStr = Inr u \<longrightarrow> uuid_Version ctx u \<noteq> 4)) \<or>
            (\<exists>e. CallNewRandom (Inl e) \<in> set (new_calls w w')) \<or>
            (\<exists>e. CallCheckSchemaVersion (Some e) \<in> set (new_calls w w')) \<or>
            (\<exists>x e. CallSaveUserOpaqueIdentifier x (Some e) \<in> set (new_calls w w')))) \<and>
      (service \<noteq> [] \<and> \<not> IsStringInSlice service (validIdentifierServices ctx) \<longrightarrow>
         res = Some (invalidServiceError service (validIdentifierServices ctx)) \<and> new_calls w w' = []))"
  (is "case_prod ?Q ?run")
proof -
  have "sat ?run (case_prod ?Q)"
    unfolding StorageUserIdentifiersAddRunE_def deferClose_def Let_def
    apply (intro sat_steps)
    using assms
    apply (auto split: if_splits)
    done
  then show ?thesis
    by (simp add: sat_def)
qed

lemma sample_versions: "uuid_Version add_env uuid_v1 = 1" "uuid_Version add_env uuid_v4 = 4"
  by (simp_all add: add_env_def mem_env_def uuid_v1_def uuid_v4_def drop_bit_eq_div unat_div)

lemma add_run_v1:
  "StorageUserIdentifiersAddRunE add_env
     (set_string cmdFlagNameIdentifier ''6ba7b810-9dad-11d1-80b4-00c04fd430c8'' no_flags) [''alice'']
     (initial empty_store)
   = (Some (identifierVersionError ''6ba7b810-9dad-11d1-80b4-00c04fd430c8'' 1), initial empty_store)"
  using sample_versions
  by (simp add: StorageUserIdentifiersAddRunE_def set_string_def no_flags_def)
     (simp add: add_env_def)

lemma add_run_v4:
  "StorageUserIdentifiersAddRunE add_env
     (set_string cmdFlagNameIdentifier ''f47ac10b-58cc-4372-a567-0e02b2c3d479'' no_flags) [''alice'']
     (initial empty_store)
   = (None,
      \<lparr>backend = empty_store\<lparr>st_identifiers :=
           [\<lparr>Service = ''openid'', SectorID = [], Username = ''alice'', Identifier = uuid_v4\<rparr>]\<rparr>,
        calls = [CallCheckSchemaVersion None,
                 CallSaveUserOpaqueIdentifier
                   \<lparr>Service = ''openid'', SectorID = [], Username = ''alice'', Identifier = uuid_v4\<rparr> None,
                 CallClose None],
        stdout = addReport add_env \<lparr>Service = ''openid'', SectorID = [], Username = ''alice'', Identifier = uuid_v4\<rparr>,
        files = []\<rparr>)"
  using sample_versions
  by (simp add: StorageUserIdentifiersAddRunE_def set_string_def no_flags_def)
     (simp add: add_env_def mem_run)

theorem add_accepts_only_version_4_witness:
  "(case StorageUserIdentifiersAddRunE add_env
           (set_string cmdFlagNameIdentifier ''6ba7b810-9dad-11d1-80b4-00c04fd430c8'' no_flags) [''alice'']
           (initial empty_store) of (res, w') \<Rightarrow>
      Changed (set_string cmdFlagNameIdentifier ''6ba7b810-9dad-11d1-80b4-00c04fd430c8'' no_flags)
        cmdFlagNameIdentifier \<and>
      uuid_Parse add_env ''6ba7b810-9dad-11d1-80b4-00c04fd430c8'' = Inr uuid_v1 \<and>
      uuid_Version add_env uuid_v1 = 1 \<and>
      res = Some (identifierVersionError ''6ba7b810-9dad-11d1-80b4-00c04fd430c8'' 1) \<and>
      calls w' = [] \<and>
      Error (identifierVersionError ''6ba7b810-9dad-11d1-80b4-00c04fd430c8'' 1)
        = ''the identifier providerd '' @ quote @ ''6ba7b810-9dad-11d1-80b4-00c04fd430c8'' @ quote
          @ '' is a version 1 UUID but only version 4 UUID'' @ quote @ ''s accepted as identifiers'') \<and>
   (case StorageUserIdentifiersAddRunE add_env
           (set_string cmdFlagNameIdentifier ''f47ac10b-58cc-4372-a567-0e02b2c3d479'' no_flags) [''alice'']
           (initial empty_store) of (res, w') \<Rightarrow>
      res = None \<and>
      CallSaveUserOpaqueIdentifier
        \<lparr>Service = ''openid'', SectorID = [], Username = ''alice'', Identifier = uuid_v4\<rparr> None \<in> set (calls w') \<and>
      uuid_Parse add_env ''f47ac10b-58cc-4372-a567-0e02b2c3d479'' = Inr uuid_v4 \<and>
      uuid_Version add_env uuid_v4 = 4)"
  using add_accepts_only_version_4 [where ctx = add_env and args = "[''alice'']" and w = "initial empty_store"
          and flags = "set_string cmdFlagNameIdentifier ''6ba7b810-9dad-11d1-80b4-00c04fd430c8'' no_flags"]
        add_accepts_only_version_4 [where ctx = add_env and args = "[''alice'']" and w = "initial empty_store"
          and flags = "set_string cmdFlagNameIdentifier ''f47ac10b-58cc-4372-a567-0e02b2c3d479'' no_flags"]
        sample_versions
  by (simp add: add_run_v1 add_run_v4 identifierVersionError_message)
     (simp add: add_env_def set_string_def digit_def)

lemma add_run_saml:
  "StorageUserIdentifiersAddRunE add_env (set_string cmdFlagNameService ''saml'' no_flags) [''alice'']
     (initial empty_store)
   = (Some (invalidServiceError ''saml'' [''openid'']), initial empty_store)"
  by (simp add: StorageUserIdentifiersAddRunE_def set_string_def no_flags_def IsStringInSlice_def)
     (simp add: add_env_def mem_env_def)

theorem add_defaults_empty_service_witness:
  "GetString (set_string cmdFlagNameIdentifier ''f47ac10b-58cc-4372-a567-0e02b2c3d479'' no_flags)
     cmdFlagNameService = Inr [] \<and>
   (case StorageUserIdentifiersAddRunE add_env
           (set_string cmdFlagNameIdentifier ''f47ac10b-58cc-4372-a567-0e02b2c3d479'' no_flags) [''alice'']
           (initial empty_store) of (res, w') \<Rightarrow>
      res = None \<and>
      calls w' = [CallCheckSchemaVersion None,
                  CallSaveUserOpaqueIdentifier
                    \<lparr>Service = identifierServiceOpenIDConnect add_env, SectorID = [], Username = ''alice'',
                      Identifier = uuid_v4\<rparr> None,
                  CallClose None]) \<and>
   GetString (set_string cmdFlagNameService ''saml'' no_flags) cmdFlagNameService = Inr ''saml'' \<and>
   \<not> IsStringInSlice ''saml'' (validIdentifierServices add_env) \<and>
   (case StorageUserIdentifiersAddRunE add_env (set_string cmdFlagNameService ''saml'' no_flags) [''alice'']
           (initial empty_store) of (res, w') \<Rightarrow>
      res = Some (invalidServiceError ''saml'' (validIdentifierServices add_env)) \<and> calls w' = [])"
  using add_defaults_empty_service [where ctx = add_env and args = "[''alice'']" and w = "initial empty_store"
          and flags = "set_string cmdFlagNameIdentifier ''f47ac10b-58cc-4372-a567-0e02b2c3d479'' no_flags"
          and service = "[]"]
        add_defaults_empty_service [where ctx = add_env and args = "[''alice'']" and w = "initial empty_store"
          and flags = "set_string cmdFlagNameService ''saml'' no_flags" and service = "''saml''"]
  by (simp add: add_run_v4 add_run_saml)
     (simp add: add_env_def mem_env_def set_string_def no_flags_def IsStringInSlice_def)

section \<open>Paginated listings\<close>

lemma length_page_of: "length (page_of xs limit page) = min limit (length xs - limit * page)"
  by (simp add: page_of_def)

lemma page_of_last:
  assumes "length xs div limit \<le> page" "0 < limit" "limit * page \<le> length xs"
  shows "page_of xs limit page = drop (limit * page) xs"
    and "length (page_of xs limit page) < limit"
    and "page = length xs div limit"
proof -
  have "page \<le> length xs div limit"
    using assms(2,3) by (simp add: less_eq_div_iff_mult_less_eq mult.commute)
  with assms(1) show p: "page = length xs div limit" by simp
  have "length xs - limit * page = length xs mod limit"
    unfolding p by (simp add: minus_mult_div_eq_mod)
  moreover have "length xs mod limit < limit"
    using assms(2) by simp
  ultimately have less: "length xs - limit * page < limit" by simp
  then show "page_of xs limit page = drop (limit * page) xs"
    by (simp add: page_of_def)
  from less show "length (page_of xs limit page) < limit"
    by (simp add: page_of_def)
qed

lemma page_of_full:
  "page < length xs div limit \<Longrightarrow> 0 < limit \<Longrightarrow>
     length (page_of xs limit page) = limit \<and> limit * (page + 1) \<le> length xs \<and>
     drop (limit * page) xs = page_of xs limit page @ drop (limit * (page + 1)) xs"
proof -
  assume a: "page < length xs div limit" "0 < limit"
  then have "page + 1 \<le> length xs div limit" by simp
  then have le: "limit * (page + 1) \<le> length xs"
    using a(2) by (simp add: less_eq_div_iff_mult_less_eq mult.commute)
  then have "limit \<le> length xs - limit * page" by simp
  then have "length (page_of xs limit page) = limit"
    by (simp add: length_page_of)
  moreover have "drop (limit * page) xs = page_of xs limit page @ drop (limit * (page + 1)) xs"
    unfolding page_of_def
    by (metis add.commute append_take_drop_id drop_drop mult.commute mult_Suc Suc_eq_plus1)
  ultimately show ?thesis using le by simp
qed

text \<open>
  The loop of the WebAuthn listing over a provider that pages a collection: from a page that
  starts inside the collection, it fetches every page up to page \<open>length devices div limit\<close>,
  the first that is not full, each once and in increasing order, and writes the lines of the
  devices from the start of the first page on.
\<close>

lemma webauthnListLoop_pages:
  assumes limit: "0 < limit"
    and load: "\<And>page. LoadWebauthnDevices ctx limit page s = (Inr (page_of devices limit page), s)"
  shows "backend w = s \<Longrightarrow> limit * page \<le> length devices \<Longrightarrow> devices \<noteq> [] \<Longrightarrow>
     webauthnListLoop ctx limit page buf w
       = Some ((None, buf @ concat (map webauthnLine (drop (limit * page) devices))),
               w\<lparr>calls := calls w
                    @ map (\<lambda>p. CallLoadWebauthnDevices limit p (Inr (page_of devices limit p)))
                        [page..<length devices div limit + 1]\<rparr>)"
proof (induction "length devices div limit - page" arbitrary: page buf w)
  case 0
  from "0.hyps" have "length devices div limit \<le> page" by simp
  note last = page_of_last [OF this limit "0.prems"(2)]
  have nonempty: "\<not> (page = 0 \<and> length (page_of devices limit page) = 0)"
    using "0.prems"(3) limit by (cases "page = 0") (auto simp: page_of_def)
  have inv: "invoke (CallLoadWebauthnDevices limit page) (LoadWebauthnDevices ctx limit page) w
      = (Inr (page_of devices limit page),
         w\<lparr>calls := calls w @ [CallLoadWebauthnDevices limit page (Inr (page_of devices limit page))]\<rparr>)"
    using "0.prems"(1) load by (simp add: invoke_def)
  have range: "[page..<length devices div limit + 1] = [page]"
    using last(3) by simp
  show ?case
    by (subst webauthnListLoop.simps)
       (simp only: inv prod.case sum.case nonempty last(2) if_True if_False range list.map last(1) [symmetric])
next
  case (Suc k)
  then have lt: "page < length devices div limit" by simp
  have full: "length (page_of devices limit page) = limit" "limit * (page + 1) \<le> length devices"
    "drop (limit * page) devices = page_of devices limit page @ drop (limit * (page + 1)) devices"
    using page_of_full [OF lt limit] by simp_all
  let ?w1 = "w\<lparr>calls := calls w @ [CallLoadWebauthnDevices limit page (Inr (page_of devices limit page))]\<rparr>"
  have inv: "invoke (CallLoadWebauthnDevices limit page) (LoadWebauthnDevices ctx limit page) w
      = (Inr (page_of devices limit page), ?w1)"
    using Suc.prems(1) load by (simp add: invoke_def)
  have k: "k = length devices div limit - (page + 1)"
    using Suc.hyps(2) by simp
  have ih: "webauthnListLoop ctx limit (page + 1) (buf @ concat (map webauthnLine (page_of devices limit page))) ?w1
       = Some ((None, (buf @ concat (map webauthnLine (page_of devices limit page)))
                        @ concat (map webauthnLine (drop (limit * (page + 1)) devices))),
               ?w1\<lparr>calls := calls ?w1
                    @ map (\<lambda>p. CallLoadWebauthnDevices limit p (Inr (page_of devices limit p)))
                        [page + 1..<length devices div limit + 1]\<rparr>)"
    by (rule Suc.hyps(1) [OF k]) (use Suc.prems full(2) in simp_all)
  have range: "[page..<length devices div limit + 1] = page # [page + 1..<length devices div limit + 1]"
    using lt by (simp add: upt_conv_Cons)
  have out: "concat (map webauthnLine (drop (limit * page) devices))
      = concat (map webauthnLine (page_of devices limit page))
        @ concat (map webauthnLine (drop (limit * (page + 1)) devices))"
    by (subst full(3)) simp
  show ?case
    apply (subst webauthnListLoop.simps)
    apply (simp only: inv prod.case sum.case full(1) ih range out)
    using limit apply simp
    done
qed

lemma webauthnListLoop_empty:
  assumes "LoadWebauthnDevices ctx limit 0 s = (Inr [], s)" and "backend w = s"
  shows "webauthnListLoop ctx limit 0 buf w
       = Some ((Some errNoWebauthnDevices, buf),
               w\<lparr>calls := calls w @ [CallLoadWebauthnDevices limit 0 (Inr [])]\<rparr>)"
  by (subst webauthnListLoop.simps) (use assms in \<open>simp add: invoke_def\<close>)

lemma webauthn_list_run:
  assumes check: "CheckSchemaVersion ctx (backend w) = (None, s)"
    and load: "\<And>page. LoadWebauthnDevices ctx 10 page s = (Inr (page_of devices 10 page), s)"
  shows "StorageWebauthnListAllRunE ctx w
     = Some (if devices = [] then Some errNoWebauthnDevices else None,
             w\<lparr>backend := snd (Close ctx s),
               calls := calls w @ [CallCheckSchemaVersion None]
                 @ map (\<lambda>p. CallLoadWebauthnDevices 10 p (Inr (page_of devices 10 p))) [0..<length devices div 10 + 1]
                 @ [CallClose (fst (Close ctx s))],
               stdout := (if devices = [] then stdout w
                          else stdout w @ webauthnHeader @ concat (map webauthnLine devices) @ nl)\<rparr>)"
proof -
  let ?w1 = "w\<lparr>backend := s, calls := calls w @ [CallCheckSchemaVersion None]\<rparr>"
  have cs: "checkSchema ctx w = (None, ?w1)"
    using check by (simp add: checkSchema_def invoke_def)
  show ?thesis
  proof (cases "devices = []")
    case True
    have "LoadWebauthnDevices ctx 10 0 s = (Inr [], s)"
      using load [of 0] True by (simp add: page_of_def)
    then have "webauthnListLoop ctx 10 0 [] ?w1
       = Some ((Some errNoWebauthnDevices, []), ?w1\<lparr>calls := calls ?w1 @ [CallLoadWebauthnDevices 10 0 (Inr [])]\<rparr>)"
      by (rule webauthnListLoop_empty) simp
    then show ?thesis
      using True by (simp add: StorageWebauthnListAllRunE_def cs closeAfter_def invoke_def page_of_def split: prod.splits)
  next
    case False
    have "webauthnListLoop ctx 10 0 [] ?w1
       = Some ((None, [] @ concat (map webauthnLine (drop (10 * 0) devices))),
               ?w1\<lparr>calls := calls ?w1
                    @ map (\<lambda>p. CallLoadWebauthnDevices 10 p (Inr (page_of devices 10 p)))
                        [0..<length devices div 10 + 1]\<rparr>)"
      by (rule webauthnListLoop_pages [OF _ load]) (use False in simp_all)
    then show ?thesis
      using False
      by (simp add: StorageWebauthnListAllRunE_def cs closeAfter_def invoke_def Printf_def split: prod.splits)
  qed
qed

text \<open>What one export writes depends on the standard output and the files so far, and on nothing else
  of the world; it makes no call to the provider.\<close>

lemma exportTOTPConfiguration_frame:
  "calls (snd (exportTOTPConfiguration ctx format dir c w)) = calls w"
  "backend (snd (exportTOTPConfiguration ctx format dir c w)) = backend w"
  by (simp_all add: exportTOTPConfiguration_def Let_def split: totp_format.splits option.splits)

lemma exportTOTPConfiguration_same:
  assumes "stdout w = stdout v" "files w = files v"
  shows "fst (exportTOTPConfiguration ctx format dir c w) = fst (exportTOTPConfiguration ctx format dir c v)"
    and "stdout (snd (exportTOTPConfiguration ctx format dir c w)) = stdout (snd (exportTOTPConfiguration ctx format dir c v))"
    and "files (snd (exportTOTPConfiguration ctx format dir c w)) = files (snd (exportTOTPConfiguration ctx format dir c v))"
  using assms
  by (simp_all add: exportTOTPConfiguration_def Let_def split: totp_format.splits option.splits)

lemma exportTOTPConfigurations_frame:
  "calls (snd (exportTOTPConfigurations ctx format dir cs w)) = calls w \<and>
   backend (snd (exportTOTPConfigurations ctx format dir cs w)) = backend w"
proof (induction cs arbitrary: w)
  case Nil
  show ?case by simp
next
  case (Cons c cs)
  show ?case
    using Cons.IH [of "snd (exportTOTPConfiguration ctx format dir c w)"]
      exportTOTPConfiguration_frame [of ctx format dir c w]
    by (cases "exportTOTPConfiguration ctx format dir c w") (auto split: option.splits)
qed

lemma exportTOTPConfigurations_same:
  "stdout w = stdout v \<Longrightarrow> files w = files v \<Longrightarrow>
   fst (exportTOTPConfigurations ctx format dir cs w) = fst (exportTOTPConfigurations ctx format dir cs v) \<and>
   stdout (snd (exportTOTPConfigurations ctx format dir cs w)) = stdout (snd (exportTOTPConfigurations ctx format dir cs v)) \<and>
   files (snd (exportTOTPConfigurations ctx format dir cs w)) = files (snd (exportTOTPConfigurations ctx format dir cs v))"
proof (induction cs arbitrary: w v)
  case Nil
  then show ?case by simp
next
  case (Cons c cs)
  obtain r w1 where w1: "exportTOTPConfiguration ctx format dir c w = (r, w1)" by force
  obtain r' v1 where v1: "exportTOTPConfiguration ctx format dir c v = (r', v1)" by force
  have same: "r = r'" "stdout w1 = stdout v1" "files w1 = files v1"
    using exportTOTPConfiguration_same [OF Cons.prems, of ctx format dir c] w1 v1 by simp_all
  show ?case
    using Cons.IH [OF same(2,3)] same w1 v1 by (cases r') simp_all
qed

lemma exportTOTPConfigurations_append:
  "exportTOTPConfigurations ctx format dir (xs @ ys) w
     = (case exportTOTPConfigurations ctx format dir xs w of
          (Some err, w1) \<Rightarrow> (Some err, w1)
        | (None, w1) \<Rightarrow> exportTOTPConfigurations ctx format dir ys w1)"
  by (induction xs arbitrary: w) (auto split: prod.splits option.splits)

text \<open>
  The loop of the TOTP export over a provider that pages a collection: it fetches the pages
  in increasing order, each once, up to the first page that is not full, or up to the page in
  which an export fails; and what it returns, prints and writes is what the export of the
  whole rest of the collection, record after record, returns, prints and writes.
\<close>

lemma totpExportLoop_pages:
  assumes limit: "0 < limit"
    and load: "\<And>page. LoadTOTPConfigurations ctx limit page s = (Inr (page_of configurations limit page), s)"
  shows "backend w = s \<Longrightarrow> limit * page \<le> length configurations \<Longrightarrow>
     \<exists>res w' n. totpExportLoop ctx format dir limit page w = Some (res, w') \<and> backend w' = s \<and>
        page \<le> n \<and> n \<le> length configurations div limit \<and>
        (res = None \<longrightarrow> n = length configurations div limit) \<and>
        calls w' = calls w @ map (\<lambda>p. CallLoadTOTPConfigurations limit p (Inr (page_of configurations limit p)))
                               [page..<n + 1] \<and>
        res = fst (exportTOTPConfigurations ctx format dir (drop (limit * page) configurations)
                     (if page = 0 \<and> format = storageTOTPExportFormatCSV then Printf totpCSVHeader w else w)) \<and>
        stdout w' = stdout (snd (exportTOTPConfigurations ctx format dir (drop (limit * page) configurations)
                     (if page = 0 \<and> format = storageTOTPExportFormatCSV then Printf totpCSVHeader w else w))) \<and>
        files w' = files (snd (exportTOTPConfigurations ctx format dir (drop (limit * page) configurations)
                     (if page = 0 \<and> format = storageTOTPExportFormatCSV then Printf totpCSVHeader w else w)))"
proof (induction "length configurations div limit - page" arbitrary: page w)
  case 0
  from "0.hyps" have "length configurations div limit \<le> page" by simp
  note last = page_of_last [OF this limit "0.prems"(2)]
  let ?P = "page_of configurations limit page"
  let ?load = "\<lambda>p. CallLoadTOTPConfigurations limit p (Inr (page_of configurations limit p))"
  let ?w1 = "w\<lparr>calls := calls w @ [?load page]\<rparr>"
  let ?h = "\<lambda>v. if page = 0 \<and> format = storageTOTPExportFormatCSV then Printf totpCSVHeader v else v"
  have inv: "invoke (CallLoadTOTPConfigurations limit page) (LoadTOTPConfigurations ctx limit page) w
      = (Inr ?P, ?w1)"
    using "0.prems"(1) load by (simp add: invoke_def)
  obtain r w2 where e: "exportTOTPConfigurations ctx format dir ?P (?h ?w1) = (r, w2)" by force
  have frame: "calls w2 = calls ?w1" "backend w2 = s"
    using exportTOTPConfigurations_frame [of ctx format dir ?P "?h ?w1"] e "0.prems"(1) by auto
  have same: "r = fst (exportTOTPConfigurations ctx format dir ?P (?h w))"
    "stdout w2 = stdout (snd (exportTOTPConfigurations ctx format dir ?P (?h w)))"
    "files w2 = files (snd (exportTOTPConfigurations ctx format dir ?P (?h w)))"
    using exportTOTPConfigurations_same [of "?h ?w1" "?h w" ctx format dir ?P] e by auto
  have loop: "totpExportLoop ctx format dir limit page w = Some (r, w2)"
    by (subst totpExportLoop.simps) (use last(2) in \<open>simp add: inv e split: option.splits\<close>)
  show ?case
  proof (rule exI [of _ r], rule exI [of _ w2], rule exI [of _ page], intro conjI)
    show "totpExportLoop ctx format dir limit page w = Some (r, w2)" by (rule loop)
    show "backend w2 = s" by (rule frame)
    show "page \<le> page" by simp
    show "page \<le> length configurations div limit" using last(3) by simp
    show "r = None \<longrightarrow> page = length configurations div limit" using last(3) by simp
    show "calls w2 = calls w @ map ?load [page..<page + 1]" using frame(1) by simp
    show "r = fst (exportTOTPConfigurations ctx format dir (drop (limit * page) configurations) (?h w))"
      using same(1) by (simp only: last(1))
    show "stdout w2 = stdout (snd (exportTOTPConfigurations ctx format dir (drop (limit * page) configurations) (?h w)))"
      using same(2) by (simp only: last(1))
    show "files w2 = files (snd (exportTOTPConfigurations ctx format dir (drop (limit * page) configurations) (?h w)))"
      using same(3) by (simp only: last(1))
  qed
next
  case (Suc k)
  then have lt: "page < length configurations div limit" by simp
  let ?P = "page_of configurations limit page"
  let ?rest = "drop (limit * (page + 1)) configurations"
  have full: "length ?P = limit" "limit * (page + 1) \<le> length configurations"
    "drop (limit * page) configurations = ?P @ ?rest"
    using page_of_full [OF lt limit] by simp_all
  let ?load = "\<lambda>p. CallLoadTOTPConfigurations limit p (Inr (page_of configurations limit p))"
  let ?w1 = "w\<lparr>calls := calls w @ [?load page]\<rparr>"
  let ?h = "\<lambda>v. if page = 0 \<and> format = storageTOTPExportFormatCSV then Printf totpCSVHeader v else v"
  have inv: "invoke (CallLoadTOTPConfigurations limit page) (LoadTOTPConfigurations ctx limit page) w
      = (Inr ?P, ?w1)"
    using Suc.prems(1) load by (simp add: invoke_def)
  obtain r w2 where e: "exportTOTPConfigurations ctx format dir ?P (?h ?w1) = (r, w2)" by force
  obtain r0 v2 where e0: "exportTOTPConfigurations ctx format dir ?P (?h w) = (r0, v2)" by force
  have frame: "calls w2 = calls ?w1" "backend w2 = s"
    using exportTOTPConfigurations_frame [of ctx format dir ?P "?h ?w1"] e Suc.prems(1) by auto
  have same: "r = r0" "stdout w2 = stdout v2" "files w2 = files v2"
    using exportTOTPConfigurations_same [of "?h ?w1" "?h w" ctx format dir ?P] e e0 by auto
  have range: "\<And>n. page \<le> n \<Longrightarrow> [page..<n + 1] = page # [page + 1..<n + 1]"
    by (simp add: upt_conv_Cons)
  show ?case
  proof (cases r)
    case (Some err)
    have loop: "totpExportLoop ctx format dir limit page w = Some (r, w2)"
      by (subst totpExportLoop.simps) (simp add: inv e Some)
    have r0: "r0 = Some err" using same(1) Some by simp
    have whole: "exportTOTPConfigurations ctx format dir (drop (limit * page) configurations) (?h w) = (r0, v2)"
      using e0 unfolding r0 by (simp add: full(3) exportTOTPConfigurations_append)
    show ?thesis
    proof (rule exI [of _ r], rule exI [of _ w2], rule exI [of _ page], intro conjI)
      show "totpExportLoop ctx format dir limit page w = Some (r, w2)" by (rule loop)
      show "backend w2 = s" by (rule frame)
      show "page \<le> page" by simp
      show "page \<le> length configurations div limit" using lt by simp
      show "r = None \<longrightarrow> page = length configurations div limit" using Some by simp
      show "calls w2 = calls w @ map ?load [page..<page + 1]" using frame(1) by simp
      show "r = fst (exportTOTPConfigurations ctx format dir (drop (limit * page) configurations) (?h w))"
        using same(1) by (simp only: whole fst_conv)
      show "stdout w2 = stdout (snd (exportTOTPConfigurations ctx format dir (drop (limit * page) configurations) (?h w)))"
        using same(2) by (simp only: whole snd_conv)
      show "files w2 = files (snd (exportTOTPConfigurations ctx format dir (drop (limit * page) configurations) (?h w)))"
        using same(3) by (simp only: whole snd_conv)
    qed
  next
    case None
    have loop: "totpExportLoop ctx format dir limit page w = totpExportLoop ctx format dir limit (page + 1) w2"
      by (subst totpExportLoop.simps) (simp add: inv e None full(1))
    have k: "k = length configurations div limit - (page + 1)"
      using Suc.hyps(2) by simp
    from Suc.hyps(1) [OF k frame(2) full(2)]
    obtain res w' n where ih: "totpExportLoop ctx format dir limit (page + 1) w2 = Some (res, w')"
      "backend w' = s" "page + 1 \<le> n" "n \<le> length configurations div limit"
      "res = None \<longrightarrow> n = length configurations div limit"
      "calls w' = calls w2 @ map ?load [page + 1..<n + 1]"
      "res = fst (exportTOTPConfigurations ctx format dir ?rest w2)"
      "stdout w' = stdout (snd (exportTOTPConfigurations ctx format dir ?rest w2))"
      "files w' = files (snd (exportTOTPConfigurations ctx format dir ?rest w2))"
      by auto
    have r0: "r0 = None" using same(1) None by simp
    have whole: "exportTOTPConfigurations ctx format dir (drop (limit * page) configurations) (?h w)
        = exportTOTPConfigurations ctx format dir ?rest v2"
      using e0 unfolding r0 by (simp add: full(3) exportTOTPConfigurations_append)
    note rest = exportTOTPConfigurations_same [OF same(2,3), of ctx format dir ?rest]
    have pn: "page \<le> n" using ih(3) by simp
    show ?thesis
    proof (rule exI [of _ res], rule exI [of _ w'], rule exI [of _ n], intro conjI)
      show "totpExportLoop ctx format dir limit page w = Some (res, w')" using ih(1) by (simp only: loop)
      show "backend w' = s" by (rule ih(2))
      show "page \<le> n" by (rule pn)
      show "n \<le> length configurations div limit" by (rule ih(4))
      show "res = None \<longrightarrow> n = length configurations div limit" by (rule ih(5))
      show "calls w' = calls w @ map ?load [page..<n + 1]"
        unfolding range [OF pn] list.map using ih(6) frame(1) by simp
      show "res = fst (exportTOTPConfigurations ctx format dir (drop (limit * page) configurations) (?h w))"
        using ih(7) rest by (simp only: whole)
      show "stdout w' = stdout (snd (exportTOTPConfigurations ctx format dir (drop (limit * page) configurations) (?h w)))"
        using ih(8) rest by (simp only: whole)
      show "files w' = files (snd (exportTOTPConfigurations ctx format dir (drop (limit * page) configurations) (?h w)))"
        using ih(9) rest by (simp only: whole)
    qed
  qed
qed

lemma closeAfter_proj:
  "fst (closeAfter ctx (r, w1)) = r"
  "calls (snd (closeAfter ctx (r, w1))) = calls w1 @ [CallClose (fst (Close ctx (backend w1)))]"
  "stdout (snd (closeAfter ctx (r, w1))) = stdout w1"
  "files (snd (closeAfter ctx (r, w1))) = files w1"
  by (simp_all add: closeAfter_def invoke_def split: prod.splits)

lemma exportTOTPConfigurations_CSV:
  "exportTOTPConfigurations ctx storageTOTPExportFormatCSV dir cs w
     = (None, w\<lparr>stdout := stdout w @ concat (map totpCSVLine cs)\<rparr>)"
  by (induction cs arbitrary: w) (simp_all add: exportTOTPConfiguration_def Printf_def)

lemma totp_export_run:
  assumes check: "CheckSchemaVersion ctx (backend w) = (None, s)"
    and load: "\<And>page. LoadTOTPConfigurations ctx 10 page s = (Inr (page_of configurations 10 page), s)"
    and flags: "flagsGetTOTPExportOptions ctx flags = Inr (format, dir)"
  shows "\<exists>res w' n rc. StorageTOTPExportRunE ctx flags w = Some (res, w') \<and>
     n \<le> length configurations div 10 \<and> (res = None \<longrightarrow> n = length configurations div 10) \<and>
     new_calls w w' = [CallCheckSchemaVersion None]
        @ map (\<lambda>p. CallLoadTOTPConfigurations 10 p (Inr (page_of configurations 10 p))) [0..<n + 1]
        @ [CallClose rc] \<and>
     (case exportTOTPConfigurations ctx format dir configurations
             (if format = storageTOTPExportFormatCSV then Printf totpCSVHeader w else w) of
        (r0, w0) \<Rightarrow>
          res = r0 \<and> files w' = files w0 \<and>
          stdout w' = stdout w0 @ (if r0 = None \<and> format = storageTOTPExportFormatPNG then msgExportedPNG dir else []))"
proof -
  let ?w1 = "w\<lparr>backend := s, calls := calls w @ [CallCheckSchemaVersion None]\<rparr>"
  let ?load = "\<lambda>p. CallLoadTOTPConfigurations 10 p (Inr (page_of configurations 10 p))"
  let ?h = "\<lambda>v. if format = storageTOTPExportFormatCSV then Printf totpCSVHeader v else v"
  have cs: "checkSchema ctx w = (None, ?w1)"
    using check by (simp add: checkSchema_def invoke_def)
  from totpExportLoop_pages [of 10 ctx s configurations ?w1 0 format dir, OF _ load]
  obtain res w2 n where loop: "totpExportLoop ctx format dir 10 0 ?w1 = Some (res, w2)"
    "n \<le> length configurations div 10" "res = None \<longrightarrow> n = length configurations div 10"
    "calls w2 = calls ?w1 @ map ?load [0..<n + 1]"
    "res = fst (exportTOTPConfigurations ctx format dir configurations (?h ?w1))"
    "stdout w2 = stdout (snd (exportTOTPConfigurations ctx format dir configurations (?h ?w1)))"
    "files w2 = files (snd (exportTOTPConfigurations ctx format dir configurations (?h ?w1)))"
    by auto
  obtain r0 w0 where e0: "exportTOTPConfigurations ctx format dir configurations (?h w) = (r0, w0)" by force
  have same: "res = r0" "stdout w2 = stdout w0" "files w2 = files w0"
    using exportTOTPConfigurations_same [of "?h ?w1" "?h w" ctx format dir configurations] loop(5,6,7) e0
    by auto
  let ?w3 = "if format = storageTOTPExportFormatPNG then Printf (msgExportedPNG dir) w2 else w2"
  let ?w4 = "case res of Some err \<Rightarrow> w2 | None \<Rightarrow> ?w3"
  have run: "StorageTOTPExportRunE ctx flags w = Some (closeAfter ctx (res, ?w4))"
    by (simp add: StorageTOTPExportRunE_def cs flags loop(1) split: option.splits)
  have calls4: "calls ?w4 = calls w2" and files4: "files ?w4 = files w2"
    and stdout4: "stdout ?w4 = stdout w2 @ (if res = None \<and> format = storageTOTPExportFormatPNG
                                          then msgExportedPNG dir else [])"
    by (simp_all split: option.splits)
  show ?thesis
  proof (rule exI [of _ res], rule exI [of _ "snd (closeAfter ctx (res, ?w4))"], rule exI [of _ n],
      rule exI [of _ "fst (Close ctx (backend ?w4))"], intro conjI)
    show "StorageTOTPExportRunE ctx flags w = Some (res, snd (closeAfter ctx (res, ?w4)))"
      unfolding run by (simp add: closeAfter_def)
    show "n \<le> length configurations div 10" by (rule loop(2))
    show "res = None \<longrightarrow> n = length configurations div 10" by (rule loop(3))
    show "new_calls w (snd (closeAfter ctx (res, ?w4))) = [CallCheckSchemaVersion None]
        @ map ?load [0..<n + 1] @ [CallClose (fst (Close ctx (backend ?w4)))]"
      by (rule new_calls_eq) (simp only: closeAfter_proj calls4 loop(4), simp)
    show "case exportTOTPConfigurations ctx format dir configurations (?h w) of
        (r0, w0) \<Rightarrow>
          res = r0 \<and> files (snd (closeAfter ctx (res, ?w4))) = files w0 \<and>
          stdout (snd (closeAfter ctx (res, ?w4)))
            = stdout w0 @ (if r0 = None \<and> format = storageTOTPExportFormatPNG then msgExportedPNG dir else [])"
      unfolding e0 prod.case closeAfter_proj files4 stdout4 using same by simp
  qed
qed

lemma pages_fetched:
  "(\<forall>p<length xs div 10. length (page_of xs 10 p) = 10) \<and>
   length (page_of xs 10 (length xs div 10)) < 10"
proof (intro conjI allI impI)
  fix p assume "p < length xs div 10"
  then show "length (page_of xs 10 p) = 10"
    using page_of_full [of p xs 10] by simp
next
  have "length xs - 10 * (length xs div 10) = length xs mod 10"
    by (simp add: minus_mult_div_eq_mod)
  then show "length (page_of xs 10 (length xs div 10)) < 10"
    by (simp add: length_page_of)
qed

text \<open>
  C3 (amended). Let the provider page a collection of \<open>M\<close> records: its paginated load
  returns page \<open>p\<close> of the collection, at most 10 records from position \<open>10 * p\<close> on. Both
  commands return. The WebAuthn listing fetches the pages \<open>0, 1, ..., M div 10\<close>, each once
  and in this order: every page before the last holds 10 records and the last holds fewer,
  so it goes on while a page is full and stops at the first page that is not. These are \<open>M div 10 + 1\<close> fetches, one more than the \<open>M\<close> over 10 rounded
  up of the claim when 10 divides \<open>M\<close>. It prints one line for every device, in the order of
  the collection, unless the collection is empty: then it returns an error after its one
  fetch. The TOTP export does what the export of the whole collection, record after record
  in its order, does: the same result, the same output, the same files; it fetches the
  pages from 0 on, each once and in order, all \<open>M div 10 + 1\<close> of them when no export fails.
  In the CSV format no export fails, and the output is the header and one row for every
  configuration.
\<close>

theorem paginated_exports_fetch_each_page_once:
  assumes "CheckSchemaVersion ctx (backend w) = (None, s)"
    and "\<And>page. LoadWebauthnDevices ctx 10 page s = (Inr (page_of devices 10 page), s)"
    and "\<And>page. LoadTOTPConfigurations ctx 10 page s = (Inr (page_of configurations 10 page), s)"
    and "flagsGetTOTPExportOptions ctx flags = Inr (format, dir)"
  shows
  "(\<exists>res w' rc. StorageWebauthnListAllRunE ctx w = Some (res, w') \<and>
      new_calls w w' = [CallCheckSchemaVersion None]
        @ map (\<lambda>p. CallLoadWebauthnDevices 10 p (Inr (page_of devices 10 p))) [0..<length devices div 10 + 1]
        @ [CallClose rc] \<and>
      (if devices = [] then res = Some errNoWebauthnDevices \<and> stdout w' = stdout w
       else res = None \<and> stdout w' = stdout w @ webauthnHeader @ concat (map webauthnLine devices) @ nl)) \<and>
   (\<exists>res w' n rc. StorageTOTPExportRunE ctx flags w = Some (res, w') \<and>
      n \<le> length configurations div 10 \<and> (res = None \<longrightarrow> n = length configurations div 10) \<and>
      new_calls w w' = [CallCheckSchemaVersion None]
        @ map (\<lambda>p. CallLoadTOTPConfigurations 10 p (Inr (page_of configurations 10 p))) [0..<n + 1]
        @ [CallClose rc] \<and>
      (case exportTOTPConfigurations ctx format dir configurations
              (if format = storageTOTPExportFormatCSV then Printf totpCSVHeader w else w) of
         (r0, w0) \<Rightarrow>
           res = r0 \<and> files w' = files w0 \<and>
           stdout w' = stdout w0 @ (if r0 = None \<and> format = storageTOTPExportFormatPNG
                                    then msgExportedPNG dir else [])) \<and>
      (format = storageTOTPExportFormatCSV \<longrightarrow>
         res = None \<and> stdout w' = stdout w @ totpCSVHeader @ concat (map totpCSVLine configurations))) \<and>
   (\<forall>p<length devices div 10. length (page_of devices 10 p) = 10) \<and>
   length (page_of devices 10 (length devices div 10)) < 10 \<and>
   (\<forall>p<length configurations div 10. length (page_of configurations 10 p) = 10) \<and>
   length (page_of configurations 10 (length configurations div 10)) < 10"
proof (intro conjI)
  show "\<exists>res w' rc. StorageWebauthnListAllRunE ctx w = Some (res, w') \<and>
      new_calls w w' = [CallCheckSchemaVersion None]
        @ map (\<lambda>p. CallLoadWebauthnDevices 10 p (Inr (page_of devices 10 p))) [0..<length devices div 10 + 1]
        @ [CallClose rc] \<and>
      (if devices = [] then res = Some errNoWebauthnDevices \<and> stdout w' = stdout w
       else res = None \<and> stdout w' = stdout w @ webauthnHeader @ concat (map webauthnLine devices) @ nl)"
    unfolding webauthn_list_run [OF assms(1,2)]
    by (intro exI conjI, rule refl) (simp_all add: new_calls_def)
next
  from totp_export_run [OF assms(1,3,4)]
  show "\<exists>res w' n rc. StorageTOTPExportRunE ctx flags w = Some (res, w') \<and>
      n \<le> length configurations div 10 \<and> (res = None \<longrightarrow> n = length configurations div 10) \<and>
      new_calls w w' = [CallCheckSchemaVersion None]
        @ map (\<lambda>p. CallLoadTOTPConfigurations 10 p (Inr (page_of configurations 10 p))) [0..<n + 1]
        @ [CallClose rc] \<and>
      (case exportTOTPConfigurations ctx format dir configurations
              (if format = storageTOTPExportFormatCSV then Printf totpCSVHeader w else w) of
         (r0, w0) \<Rightarrow>
           res = r0 \<and> files w' = files w0 \<and>
           stdout w' = stdout w0 @ (if r0 = None \<and> format = storageTOTPExportFormatPNG
                                    then msgExportedPNG dir else [])) \<and>
      (format = storageTOTPExportFormatCSV \<longrightarrow>
         res = None \<and> stdout w' = stdout w @ totpCSVHeader @ concat (map totpCSVLine configurations))"
  proof (elim exE conjE)
    fix res w' n rc
    assume run: "StorageTOTPExportRunE ctx flags w = Some (res, w')"
      and n: "n \<le> length configurations div 10" "res = None \<longrightarrow> n = length configurations div 10"
      and fetches: "new_calls w w' = [CallCheckSchemaVersion None]
        @ map (\<lambda>p. CallLoadTOTPConfigurations 10 p (Inr (page_of configurations 10 p))) [0..<n + 1]
        @ [CallClose rc]"
      and whole: "case exportTOTPConfigurations ctx format dir configurations
              (if format = storageTOTPExportFormatCSV then Printf totpCSVHeader w else w) of
         (r0, w0) \<Rightarrow>
           res = r0 \<and> files w' = files w0 \<and>
           stdout w' = stdout w0 @ (if r0 = None \<and> format = storageTOTPExportFormatPNG
                                    then msgExportedPNG dir else [])"
    have csv: "format = storageTOTPExportFormatCSV \<longrightarrow>
         res = None \<and> stdout w' = stdout w @ totpCSVHeader @ concat (map totpCSVLine configurations)"
      using whole by (auto simp: exportTOTPConfigurations_CSV)
    show ?thesis
      by (rule exI [of _ res], rule exI [of _ w'], rule exI [of _ n], rule exI [of _ rc])
         (intro conjI run n fetches whole csv)
  qed
next
  show "\<forall>p<length devices div 10. length (page_of devices 10 p) = 10"
    using pages_fetched [of devices] by blast
next
  show "length (page_of devices 10 (length devices div 10)) < 10"
    using pages_fetched [of devices] by blast
next
  show "\<forall>p<length configurations div 10. length (page_of configurations 10 p) = 10"
    using pages_fetched [of configurations] by blast
next
  show "length (page_of configurations 10 (length configurations div 10)) < 10"
    using pages_fetched [of configurations] by blast
qed

lemma ten_store_pages:
  "CheckSchemaVersion mem_env (backend (initial ten_store)) = (None, ten_store)"
  "LoadWebauthnDevices mem_env 10 page ten_store = (Inr (page_of ten_devices 10 page), ten_store)"
  "LoadTOTPConfigurations mem_env 10 page ten_store = (Inr (page_of two_configurations 10 page), ten_store)"
  "flagsGetTOTPExportOptions mem_env no_flags = Inr (storageTOTPExportFormatCSV, [])"
  by (simp_all add: mem_env_def ten_store_def empty_store_def)

theorem paginated_exports_fetch_each_page_once_witness:
  "CheckSchemaVersion mem_env (backend (initial ten_store)) = (None, ten_store) \<and>
   (\<forall>page. LoadWebauthnDevices mem_env 10 page ten_store = (Inr (page_of ten_devices 10 page), ten_store)) \<and>
   (\<forall>page. LoadTOTPConfigurations mem_env 10 page ten_store
              = (Inr (page_of two_configurations 10 page), ten_store)) \<and>
   flagsGetTOTPExportOptions mem_env no_flags = Inr (storageTOTPExportFormatCSV, []) \<and>
   (\<exists>res w' rc. StorageWebauthnListAllRunE mem_env (initial ten_store) = Some (res, w') \<and>
      calls w' = [CallCheckSchemaVersion None]
        @ map (\<lambda>p. CallLoadWebauthnDevices 10 p (Inr (page_of ten_devices 10 p))) [0..<length ten_devices div 10 + 1]
        @ [CallClose rc] \<and>
      res = None \<and> stdout w' = webauthnHeader @ concat (map webauthnLine ten_devices) @ nl) \<and>
   (\<exists>res w' rc. StorageTOTPExportRunE mem_env no_flags (initial ten_store) = Some (res, w') \<and>
      calls w' = [CallCheckSchemaVersion None]
        @ map (\<lambda>p. CallLoadTOTPConfigurations 10 p (Inr (page_of two_configurations 10 p)))
            [0..<length two_configurations div 10 + 1]
        @ [CallClose rc] \<and>
      res = None \<and> stdout w' = totpCSVHeader @ concat (map totpCSVLine two_configurations))"
proof -
  have nonempty: "ten_devices \<noteq> []"
    by (simp add: ten_devices_def upt_rec)
  from paginated_exports_fetch_each_page_once [of mem_env "initial ten_store" ten_store ten_devices
      two_configurations no_flags storageTOTPExportFormatCSV "[]", OF ten_store_pages]
  show ?thesis
    using ten_store_pages nonempty by (simp del: upt_Suc) blast
qed

text \<open>
  C3 as claimed fails on a collection of ten devices: the listing fetches page 0, which is
  full, and then page 1, which is empty. These are two fetches, and ten over ten rounded up
  is one.
\<close>

theorem pagination_ceiling_counterexample:
  "StorageWebauthnListAllRunE mem_env (initial ten_store)
     = Some (None,
        \<lparr>backend = ten_store,
          calls = [CallCheckSchemaVersion None,
                   CallLoadWebauthnDevices 10 0 (Inr ten_devices),
                   CallLoadWebauthnDevices 10 1 (Inr []),
                   CallClose None],
          stdout = webauthnHeader @ concat (map webauthnLine ten_devices) @ nl,
          files = []\<rparr>) \<and>
   length ten_devices = 10 \<and> (length ten_devices + 10 - 1) div 10 = 1"
proof -
  have len: "length ten_devices = 10"
    by (simp add: ten_devices_def)
  have pages: "page_of ten_devices 10 0 = ten_devices" "page_of ten_devices 10 (Suc 0) = []"
    by (simp_all add: page_of_def len)
  have nonempty: "ten_devices \<noteq> []"
    using len by auto
  show ?thesis
    unfolding webauthn_list_run [of mem_env "initial ten_store" ten_store ten_devices, OF ten_store_pages(1,2)]
    using nonempty
    by (simp add: len pages initial_def mem_env_def)
qed

end
